theory Spec2Isabelle
  imports Main
begin

section \<open>Data model of the service worker\<close>

text \<open>
  The embedding follows the background service worker (the file that starts with
  "Service Worker - Background logic for timing and rules"), which inlines its own
  \<open>RulesEngine\<close>, \<open>StorageManager\<close>, \<open>TimeKeeper\<close> and \<open>TwitterTimeLimitService\<close>.

  Conventions of the model:
  \<^item> times are milliseconds since the epoch (\<open>Date.now()\<close>), an \<open>int\<close>; every operation
    takes the reading \<open>now\<close> of the clock as an argument, and the several readings that one
    operation makes are taken to be the same instant;
  \<^item> minutes in the settings are whole numbers, so every limit in milliseconds is an \<open>int\<close>;
  \<^item> each asynchronous operation runs to completion before the next event is handled; the
    in-flight guards that an operation sets on entry and clears on every exit
    (\<open>startInProgress\<close>, \<open>stopInProgress\<close>, \<open>pauseInProgress\<close>, \<open>resetInProgress\<close>,
    \<open>updateTrackingInProgress\<close>) are therefore always clear between events and are left
    out; \<open>snoozeInProgress\<close> is not cleared on exit and is modelled;
  \<^item> the storage cache and \<open>chrome.storage.local\<close> hold the same values (every write of the
    operations modelled here goes to both), so the store is one record per key;
  \<^item> what the worker sends to the in-scope tabs and to the notification centre is appended
    to \<open>outbox\<close>; the broadcasts to the popup ports are not recorded.
\<close>

record settings =
  dailyLimitMin :: int
  allowSnooze :: bool
  cooldownMin :: int
  enabled :: bool
  passcodeHash :: "string option"
  mode :: string

record usage =
  millisActive :: int
  lastTickAt :: int
  dateKey :: string

text \<open>
  \<open>snoozeUsedToday\<close> and \<open>frozenTimeUsed\<close> are absent from \<open>DEFAULT_FLAGS\<close>; the code only
  tests \<open>snoozeUsedToday\<close> for truthiness, so absent is \<open>False\<close>, and an absent or
  \<open>undefined\<close> \<open>frozenTimeUsed\<close> is \<open>None\<close>.
\<close>

record flags =
  nudged :: bool
  locked :: bool
  pausedToday :: bool
  snoozed :: bool
  snoozeUsedToday :: bool
  frozenTimeUsed :: "int option"

record timekeeper =
  isActive :: bool
  lastTickTime :: "int option"
  tickInterval :: bool
  usageSaveInterval :: int
  lastUsageSave :: int
  currentUsageMs :: int
  isInitialized :: bool
  isPaused :: bool
  isLocked :: bool
  lastActiveChange :: int
  writeBackoffUntil :: int

text \<open>
  \<open>lastResetRequestAt\<close> and \<open>suppressStopUntil\<close> are \<open>undefined\<close> until first written and
  are only used behind a truthiness test, so \<open>0\<close> stands for \<open>undefined\<close>.
\<close>

record service =
  isTracking :: bool
  lastPauseToggle :: int
  lastSettingsUpdate :: int
  lastSnoozeRequest :: int
  snoozeInProgress :: bool
  lastResetRequestAt :: int
  suppressStopUntil :: int

datatype directive =
    SHOW_NUDGE int
  | SHOW_SOFT_LOCK
  | SHOW_CLOSE_COUNTDOWN
  | HIDE_OVERLAY
  | NOTIFICATION string

text \<open>
  \<open>snoozeTimers\<close> holds the pending callbacks of the \<open>setTimeout\<close> in
  \<open>handleSnoozeRequest\<close>, oldest first: the instant each is due and the
  \<open>cooldownDurationMillis\<close> its closure captured. \<open>loadedAt\<close> is the instant the script was
  evaluated, which \<open>DEFAULT_USAGE\<close> captures.
\<close>

record world =
  st_settings :: settings
  st_usage :: usage
  st_flags :: flags
  tk :: timekeeper
  svc :: service
  snoozeTimers :: "(int \<times> int) list"
  outbox :: "directive list"
  loadedAt :: int

section \<open>Date keys\<close>

text \<open>
  \<open>getDateKey()\<close> is \<open>new Date().toISOString().split('T')[0]\<close>: the calendar date of the
  instant in UTC, as \<open>YYYY-MM-DD\<close>. The conversion from the day number to the civil date
  is the proleptic Gregorian one that \<open>toISOString\<close> uses; the four-digit year form covers
  the years 0000 to 9999.
\<close>

definition civil_from_days :: "int \<Rightarrow> int \<times> int \<times> int" where
  "civil_from_days z0 =
     (let z = z0 + 719468;
          era = z div 146097;
          doe = z mod 146097;
          yoe = (doe - doe div 1460 + doe div 36524 - doe div 146096) div 365;
          doy = doe - (365 * yoe + yoe div 4 - yoe div 100);
          mp = (5 * doy + 2) div 153;
          d = doy - (153 * mp + 2) div 5 + 1;
          m = (if mp < 10 then mp + 3 else mp - 9);
          y = yoe + era * 400 + (if m \<le> 2 then 1 else 0)
      in (y, m, d))"

definition digit10 :: "int \<Rightarrow> char" where
  "digit10 n = ''0123456789'' ! nat (n mod 10)"

definition pad2 :: "int \<Rightarrow> string" where
  "pad2 n = [digit10 (n div 10), digit10 n]"

definition pad4 :: "int \<Rightarrow> string" where
  "pad4 n = [digit10 (n div 1000), digit10 (n div 100), digit10 (n div 10), digit10 n]"

definition isoDate :: "int \<Rightarrow> string" where
  "isoDate day = (case civil_from_days day of (y, m, d) \<Rightarrow> pad4 y @ ''-'' @ pad2 m @ ''-'' @ pad2 d)"

definition getDateKey :: "int \<Rightarrow> string" where
  "getDateKey now = isoDate (now div 86400000)"

text \<open>
  The calendar date in local time, for a zone that is \<open>tzMinutes\<close> minutes ahead of UTC.
  The code never computes it; it is here to compare the specification's wording with
  \<open>getDateKey\<close>.
\<close>

definition localDateKey :: "int \<Rightarrow> int \<Rightarrow> string" where
  "localDateKey tzMinutes now = isoDate ((now + tzMinutes * 60000) div 86400000)"

section \<open>StorageManager\<close>

definition DEFAULT_SETTINGS :: settings where
  "DEFAULT_SETTINGS =
     \<lparr>dailyLimitMin = 30, allowSnooze = True, cooldownMin = 5, enabled = False,
      passcodeHash = None, mode = ''softlock''\<rparr>"

definition DEFAULT_USAGE :: "int \<Rightarrow> usage" where
  "DEFAULT_USAGE loaded =
     \<lparr>millisActive = 0, lastTickAt = loaded, dateKey = getDateKey loaded\<rparr>"

definition DEFAULT_FLAGS :: flags where
  "DEFAULT_FLAGS =
     \<lparr>nudged = False, locked = False, pausedToday = False, snoozed = False,
      snoozeUsedToday = False, frozenTimeUsed = None\<rparr>"

text \<open>
  \<open>checkDailyReset\<close>: \<open>set\<close> replaces the stored object, so the flags that
  \<open>DEFAULT_FLAGS\<close> does not list are gone afterwards. The in-memory \<open>TimeKeeper\<close> is not
  touched.
\<close>

definition checkDailyReset :: "int \<Rightarrow> world \<Rightarrow> bool \<times> world" where
  "checkDailyReset now w =
     (let currentDateKey = getDateKey now in
      if dateKey (st_usage w) \<noteq> currentDateKey
      then (True, w\<lparr>st_usage := (DEFAULT_USAGE (loadedAt w))\<lparr>dateKey := currentDateKey\<rparr>,
                     st_flags := DEFAULT_FLAGS\<rparr>)
      else (False, w))"

section \<open>TimeKeeper\<close>

definition syncWithStorage :: "world \<Rightarrow> world" where
  "syncWithStorage w =
     (if \<not> isInitialized (tk w)
      then w\<lparr>tk := (tk w)\<lparr>
             currentUsageMs := millisActive (st_usage w),
             isPaused := pausedToday (st_flags w),
             isLocked := locked (st_flags w),
             isInitialized := True,
             lastTickTime := (if millisActive (st_usage w) = 0 then None
                              else lastTickTime (tk w))\<rparr>\<rparr>
      else w)"

definition start :: "int \<Rightarrow> world \<Rightarrow> world" where
  "start now w =
     (if tickInterval (tk w) then w
      else if isLocked (tk w) then w
      else let w1 = syncWithStorage w in
        if isLocked (tk w1) then w1
        else w1\<lparr>tk := (tk w1)\<lparr>lastTickTime := Some now, tickInterval := True\<rparr>\<rparr>)"

definition stop :: "int \<Rightarrow> world \<Rightarrow> world" where
  "stop now w =
     (let w1 = w\<lparr>tk := (tk w)\<lparr>tickInterval := False\<rparr>\<rparr>;
          w2 = (if currentUsageMs (tk w1) > 0
                then w1\<lparr>st_usage := (st_usage w1)\<lparr>
                       millisActive := currentUsageMs (tk w1), lastTickAt := now\<rparr>\<rparr>
                else w1)
      in w2\<lparr>tk := (tk w2)\<lparr>isActive := False, lastTickTime := None\<rparr>\<rparr>)"

definition setActive :: "bool \<Rightarrow> int \<Rightarrow> world \<Rightarrow> world" where
  "setActive active now w =
     (if isActive (tk w) = active then w
      else if now - lastActiveChange (tk w) < 200 then w
      else if isLocked (tk w) \<and> active then w
      else w\<lparr>tk := (tk w)\<lparr>
             lastActiveChange := now,
             isActive := active,
             lastTickTime := (if active then Some now else lastTickTime (tk w))\<rparr>\<rparr>)"

text \<open>\<open>settings.cooldownMin || 5\<close>: a cooldown of \<open>0\<close> is falsy and reads as \<open>5\<close>.\<close>

definition cooldownOr5 :: "settings \<Rightarrow> int" where
  "cooldownOr5 s = (if cooldownMin s = 0 then 5 else cooldownMin s)"

text \<open>The limit that applies: the cooldown while snoozed, the daily limit otherwise.\<close>

definition effectiveLimitMillis :: "settings \<Rightarrow> flags \<Rightarrow> int" where
  "effectiveLimitMillis s f =
     (if snoozed f then cooldownOr5 s * 60 * 1000 else dailyLimitMin s * 60 * 1000)"

definition tickBuffer :: int where
  "tickBuffer = 2000"

definition triggerNudge :: "world \<Rightarrow> world" where
  "triggerNudge w =
     (let s = st_settings w; f = st_flags w in
      if \<not> enabled s \<or> \<not> allowSnooze s \<or> nudged f \<or> pausedToday f \<or> snoozed f \<or> locked f
      then w
      else let w1 = w\<lparr>st_flags := f\<lparr>nudged := True\<rparr>\<rparr>;
               realTimeLeft = max 0 (effectiveLimitMillis s (st_flags w1) - currentUsageMs (tk w1))
           in w1\<lparr>outbox := outbox w1 @ [SHOW_NUDGE realTimeLeft]\<rparr>)"

definition triggerLimit :: "int \<Rightarrow> world \<Rightarrow> world" where
  "triggerLimit now w =
     (let s = st_settings w; f = st_flags w in
      if \<not> enabled s \<or> locked f \<or> pausedToday f then w
      else let lim = effectiveLimitMillis s f in
        if currentUsageMs (tk w) \<ge> lim - tickBuffer
        then let w1 = w\<lparr>st_flags := f\<lparr>locked := True, nudged := False,
                                         frozenTimeUsed := Some lim\<rparr>\<rparr>;
                 w2 = w1\<lparr>tk := (tk w1)\<lparr>isLocked := True\<rparr>\<rparr>;
                 w3 = stop now w2
             in w3\<lparr>outbox := outbox w3 @
                      [if mode s = ''close'' then SHOW_CLOSE_COUNTDOWN else SHOW_SOFT_LOCK]\<rparr>
        else w)"

text \<open>
  \<open>checkLimits(usage)\<close>. The nudge threshold is \<open>effectiveLimitMillis * 0.8\<close>; for whole
  minutes that product is the integer \<open>48000 * dailyLimitMin\<close> exactly, so the comparison
  \<open>usage.millisActive >= nudgeThreshold\<close> is \<open>5 * millisActive \<ge> 4 * limit\<close>.
\<close>

definition checkLimits :: "usage \<Rightarrow> int \<Rightarrow> world \<Rightarrow> world" where
  "checkLimits u now w =
     (let s = st_settings w; f = st_flags w in
      if \<not> enabled s \<or> pausedToday f \<or> locked f then w
      else let lim = effectiveLimitMillis s f;
               w1 = (if snoozed f then w
                     else if \<not> nudged f \<and> 5 * millisActive u \<ge> 4 * lim then triggerNudge w
                     else w)
           in if millisActive u \<ge> lim - tickBuffer then triggerLimit now w1 else w1)"

text \<open>
  \<open>tick()\<close>. \<open>idle\<close> says that \<open>chrome.idle.queryState\<close> answered \<open>'idle'\<close> or \<open>'locked'\<close>;
  \<open>writeOk\<close> says that the throttled \<open>storage.updateUsageToday\<close> succeeds if it is attempted.
  \<open>!this.lastTickTime\<close> holds for \<open>null\<close> and for \<open>0\<close>.

  \<open>newUsage\<close> is the object \<open>{ ...usage, millisActive: this.currentUsageMs, lastTickAt: now }\<close>
  that \<open>tick\<close> builds after adding \<open>deltaTime\<close>, and \<open>accumulate\<close> is the part of \<open>tick\<close>
  between the idle check and the call of \<open>checkLimits\<close>: the addition, the throttled save
  and the new anchor.
\<close>

definition newUsage :: "int \<Rightarrow> int \<Rightarrow> world \<Rightarrow> usage" where
  "newUsage deltaTime now w =
     (st_usage w)\<lparr>millisActive := currentUsageMs (tk w) + deltaTime, lastTickAt := now\<rparr>"

definition accumulate :: "int \<Rightarrow> int \<Rightarrow> bool \<Rightarrow> world \<Rightarrow> world" where
  "accumulate deltaTime now writeOk w =
     (let w1 = w\<lparr>tk := (tk w)\<lparr>currentUsageMs := currentUsageMs (tk w) + deltaTime\<rparr>\<rparr>;
          w2 = (if now \<ge> writeBackoffUntil (tk w1)
                   \<and> now - lastUsageSave (tk w1) \<ge> usageSaveInterval (tk w1)
                then if writeOk
                  then w1\<lparr>tk := (tk w1)\<lparr>lastUsageSave := now, writeBackoffUntil := 0\<rparr>,
                          st_usage := newUsage deltaTime now w\<rparr>
                  else w1\<lparr>tk := (tk w1)\<lparr>lastUsageSave := now,
                                          writeBackoffUntil := now + 120000\<rparr>\<rparr>
                else w1)
      in w2\<lparr>tk := (tk w2)\<lparr>lastTickTime := Some now\<rparr>\<rparr>)"

definition tick :: "int \<Rightarrow> bool \<Rightarrow> bool \<Rightarrow> world \<Rightarrow> world" where
  "tick now idle writeOk w =
     (case lastTickTime (tk w) of
        None \<Rightarrow> w
      | Some lt \<Rightarrow>
          if \<not> isActive (tk w) \<or> lt = 0 then w
          else let deltaTime = now - lt in
            if deltaTime < 100 then w
            else if isLocked (tk w) \<or> \<not> enabled (st_settings w)
                    \<or> locked (st_flags w) \<or> pausedToday (st_flags w)
              then w\<lparr>tk := (tk w)\<lparr>lastTickTime := Some now\<rparr>\<rparr>
            else if idle then w\<lparr>tk := (tk w)\<lparr>lastTickTime := Some now\<rparr>\<rparr>
            else checkLimits (newUsage deltaTime now w) now (accumulate deltaTime now writeOk w))"

section \<open>TwitterTimeLimitService\<close>

text \<open>
  What \<open>updateTrackingImmediate\<close> and the resume branch of \<open>togglePause\<close> read from
  \<open>chrome.tabs\<close>, \<open>chrome.windows\<close> and the popup ports.
\<close>

record trackingEnv =
  hasActiveXTabInFocusedWindow :: bool
  hasActiveXTabAnywhere :: bool
  popupOpen :: bool

text \<open>
  \<open>updateTrackingImmediate\<close>. In the locked branch the overlay is re-sent only to tabs that
  are not in \<open>tabsWithOverlays\<close>; that set is not modelled and the re-send is not recorded.
\<close>

definition updateTrackingImmediate :: "trackingEnv \<Rightarrow> int \<Rightarrow> world \<Rightarrow> world" where
  "updateTrackingImmediate env now w =
     (let wasTracking = isTracking (svc w);
          s = st_settings w; f = st_flags w;
          suppressStops = (suppressStopUntil (svc w) \<noteq> 0 \<and> now < suppressStopUntil (svc w));
          allowDueToPopup = (popupOpen env \<and> hasActiveXTabAnywhere env);
          shouldTrack0 = ((hasActiveXTabInFocusedWindow env \<or> allowDueToPopup)
                          \<and> enabled s \<and> \<not> pausedToday f \<and> \<not> locked f \<and> \<not> isLocked (tk w));
          shouldTrack = (if \<not> shouldTrack0 \<and> suppressStops then wasTracking \<or> allowDueToPopup
                         else shouldTrack0);
          w1 = w\<lparr>svc := (svc w)\<lparr>isTracking := shouldTrack\<rparr>\<rparr>
      in if pausedToday f then w1
         else if locked f then stop now w1
         else if shouldTrack then
           (let w2 = (if \<not> tickInterval (tk w1)
                      then (if \<not> locked f \<and> \<not> isLocked (tk w1) then start now w1 else w1)
                      else w1)
            in if \<not> isPaused (tk w2) \<and> \<not> locked f \<and> \<not> isLocked (tk w2)
               then setActive True now w2 else w2)
         else if wasTracking then (if suppressStops then w1 else stop now w1)
         else w1)"

text \<open>
  \<open>handleSnoozeRequest\<close>. \<open>Inl msg\<close> is the returned \<open>{ success: false, error: msg }\<close>;
  \<open>Inr ()\<close> is the return without a value, which \<open>handleMessage\<close> answers with
  \<open>{ success: true }\<close>. The early returns leave \<open>snoozeInProgress\<close> set.
\<close>

definition handleSnoozeRequest :: "int \<Rightarrow> world \<Rightarrow> (string + unit) \<times> world" where
  "handleSnoozeRequest now w =
     (if snoozeInProgress (svc w) then (Inl ''Snooze in progress'', w)
      else let w1 = w\<lparr>svc := (svc w)\<lparr>snoozeInProgress := True\<rparr>\<rparr> in
        if now - lastSnoozeRequest (svc w1) < 2000
        then (Inl ''Please wait before requesting snooze again'', w1)
        else let w2 = w1\<lparr>svc := (svc w1)\<lparr>lastSnoozeRequest := now\<rparr>\<rparr>;
                 s = st_settings w2 in
          if \<not> allowSnooze s then (Inl ''Snooze not allowed'', w2)
          else if snoozed (st_flags w2) \<or> snoozeUsedToday (st_flags w2)
            then (Inl ''Snooze already used today'', w2)
          else
            let cooldownMinutes = cooldownOr5 s;
                w3 = stop now w2;
                w4 = w3\<lparr>st_usage := (st_usage w3)\<lparr>millisActive := 0, lastTickAt := now,
                                                      dateKey := getDateKey now\<rparr>\<rparr>;
                w5 = w4\<lparr>tk := (tk w4)\<lparr>currentUsageMs := 0, isInitialized := True,
                                        isPaused := False, isLocked := False,
                                        lastTickTime := Some now, lastUsageSave := 0\<rparr>\<rparr>;
                w6 = w5\<lparr>st_flags := (st_flags w5)\<lparr>snoozed := True, snoozeUsedToday := True,
                                                      locked := False, nudged := False,
                                                      frozenTimeUsed := None\<rparr>\<rparr>;
                w7 = w6\<lparr>outbox := outbox w6 @ [HIDE_OVERLAY]\<rparr>;
                cooldownDurationMillis = cooldownMinutes * 60 * 1000;
                w8 = w7\<lparr>snoozeTimers := snoozeTimers w7 @
                           [(now + cooldownDurationMillis, cooldownDurationMillis)]\<rparr>
            in (Inr (), w8\<lparr>outbox := outbox w8 @ [NOTIFICATION ''snooze_confirmation'']\<rparr>))"

text \<open>
  The callback that \<open>handleSnoozeRequest\<close> hands to \<open>setTimeout\<close>. The handle of the timer
  is not kept anywhere, so nothing in the worker can clear it.
\<close>

definition snoozeTimeout :: "int \<Rightarrow> int \<Rightarrow> world \<Rightarrow> world" where
  "snoozeTimeout cooldownMs now w =
     (let w1 = w\<lparr>st_flags := (st_flags w)\<lparr>snoozed := False, locked := True, nudged := False,
                                           frozenTimeUsed := Some cooldownMs\<rparr>\<rparr>;
          w2 = w1\<lparr>tk := (tk w1)\<lparr>isLocked := True\<rparr>\<rparr>;
          w3 = stop now w2;
          w4 = w3\<lparr>outbox := outbox w3 @ [SHOW_SOFT_LOCK]\<rparr>
      in w4\<lparr>svc := (svc w4)\<lparr>snoozeInProgress := False\<rparr>\<rparr>)"

text \<open>The event loop runs the oldest pending callback once its delay has passed.\<close>

definition fireSnoozeTimer :: "int \<Rightarrow> world \<Rightarrow> world" where
  "fireSnoozeTimer now w =
     (case snoozeTimers w of
        [] \<Rightarrow> w
      | (due, cooldownMs) # rest \<Rightarrow>
          if now < due then w else snoozeTimeout cooldownMs now (w\<lparr>snoozeTimers := rest\<rparr>))"

text \<open>
  \<open>RulesEngine.validatePasscode\<close> of the service worker: no hashing, and \<open>false\<close> when no
  passcode is stored (\<open>!settings.passcodeHash\<close> holds for \<open>null\<close> and for the empty string).
\<close>

definition validatePasscode :: "string \<Rightarrow> world \<Rightarrow> bool" where
  "validatePasscode inputPasscode w =
     (case passcodeHash (st_settings w) of
        None \<Rightarrow> False
      | Some h \<Rightarrow> if h = [] then False else h = inputPasscode)"

text \<open>
  \<open>RulesEngine.setPasscode\<close>, which the \<open>SET_PASSCODE\<close> message calls: the passcode is stored
  as given. \<open>storage.updateSettings\<close> then runs \<open>handleSettingsChange\<close>, which does nothing
  when the daily limit is unchanged.
\<close>

definition setPasscode :: "string \<Rightarrow> world \<Rightarrow> world" where
  "setPasscode passcode w = w\<lparr>st_settings := (st_settings w)\<lparr>passcodeHash := Some passcode\<rparr>\<rparr>"

text \<open>The method \<open>clearLockedState\<close>, which the \<open>CLEAR_LOCK\<close> message calls.\<close>

definition clearLockedState :: "world \<Rightarrow> world" where
  "clearLockedState w =
     (if locked (st_flags w)
      then w\<lparr>st_flags := (st_flags w)\<lparr>locked := False, frozenTimeUsed := None\<rparr>,
             tk := (tk w)\<lparr>isLocked := False\<rparr>\<rparr>
      else w)"

text \<open>
  \<open>handleBypassRequest\<close>. After the validation (which only decides whether the
  \<open>invalid_passcode\<close> notification is shown; there is no return in that branch) the method
  evaluates \<open>await clearLockedState()\<close>, without \<open>this.\<close>. No binding of that name is in
  scope of the method (it is a method of the class, not a function of the script), so the
  call raises a \<open>ReferenceError\<close> before anything is cleared; \<open>handleMessage\<close> catches it and
  answers \<open>{ error: error.message }\<close>, which is the \<open>Inl\<close> here.
\<close>

definition handleBypassRequest :: "string \<Rightarrow> world \<Rightarrow> (string + unit) \<times> world" where
  "handleBypassRequest passcode w =
     (let isValid = validatePasscode passcode w;
          w1 = (if \<not> isValid then w\<lparr>outbox := outbox w @ [NOTIFICATION ''invalid_passcode'']\<rparr>
                else w)
      in (Inl ''clearLockedState is not defined'', w1))"

text \<open>
  \<open>togglePause\<close>. \<open>checkActiveTabs\<close> in the resume branch only refreshes the tab set and
  schedules a debounced \<open>updateTrackingImmediate\<close>, which arrives as an event of its own.
\<close>

definition togglePause :: "trackingEnv \<Rightarrow> int \<Rightarrow> world \<Rightarrow> world" where
  "togglePause env now w =
     (if now - lastPauseToggle (svc w) < 1000 then w
      else
        let w0 = w\<lparr>svc := (svc w)\<lparr>lastPauseToggle := now\<rparr>\<rparr>;
            newPausedState = (\<not> pausedToday (st_flags w0));
            w1 = w0\<lparr>st_flags := (st_flags w0)\<lparr>pausedToday := newPausedState\<rparr>\<rparr>;
            w2 = w1\<lparr>tk := (tk w1)\<lparr>isPaused := newPausedState\<rparr>\<rparr>
        in if newPausedState
           then
             let w3 = (if snoozed (st_flags w2)
                       then w2\<lparr>st_flags := (st_flags w2)\<lparr>snoozed := False, locked := False,
                                                           pausedToday := True\<rparr>\<rparr>
                       else w2);
                 w4 = w3\<lparr>outbox := outbox w3 @ [HIDE_OVERLAY]\<rparr>;
                 w5 = stop now w4
             in w5\<lparr>outbox := outbox w5 @ [NOTIFICATION ''extension_paused'']\<rparr>
           else
             let w3 = w2\<lparr>svc := (svc w2)\<lparr>suppressStopUntil := now + 1200\<rparr>\<rparr>;
                 w4 = (if popupOpen env \<and> hasActiveXTabAnywhere env
                       then setActive True now (if \<not> tickInterval (tk w3) then start now w3 else w3)
                       else w3);
                 w5 = (if isTracking (svc w4)
                       then setActive True now (if \<not> tickInterval (tk w4) then start now w4 else w4)
                       else w4)
             in w5\<lparr>outbox := outbox w5 @ [NOTIFICATION ''extension_resumed'']\<rparr>)"

text \<open>
  \<open>manualReset\<close>. The flags object it stores has no \<open>snoozeUsedToday\<close>. The second,
  delayed \<open>updateTrackingImmediate\<close> arrives as an event of its own.
\<close>

definition manualReset :: "trackingEnv \<Rightarrow> int \<Rightarrow> world \<Rightarrow> world" where
  "manualReset env now w =
     (if lastResetRequestAt (svc w) \<noteq> 0 \<and> now - lastResetRequestAt (svc w) < 1500 then w
      else
        let w0 = w\<lparr>svc := (svc w)\<lparr>lastResetRequestAt := now\<rparr>\<rparr>;
            w1 = stop now w0;
            w2 = w1\<lparr>tk := (tk w1)\<lparr>currentUsageMs := 0, isInitialized := True,
                                    isLocked := False, isPaused := False,
                                    lastTickTime := None\<rparr>\<rparr>;
            w3 = w2\<lparr>st_usage := \<lparr>millisActive = 0, lastTickAt = now, dateKey = getDateKey now\<rparr>,
                    st_flags := \<lparr>nudged = False, locked = False, pausedToday = False,
                                 snoozed = False, snoozeUsedToday = False,
                                 frozenTimeUsed = None\<rparr>\<rparr>;
            w4 = w3\<lparr>outbox := outbox w3 @ [HIDE_OVERLAY]\<rparr>;
            w5 = w4\<lparr>svc := (svc w4)\<lparr>suppressStopUntil := now + 1500\<rparr>\<rparr>
        in updateTrackingImmediate env now w5)"

text \<open>The \<open>USER_ACTIVITY\<close> message.\<close>

definition userActivity :: "int \<Rightarrow> world \<Rightarrow> world" where
  "userActivity now w =
     (if \<not> isPaused (tk w)
      then setActive True now (w\<lparr>tk := (tk w)\<lparr>lastActiveChange := now - 300\<rparr>\<rparr>)
      else w)"

subsection \<open>The UPDATE_SETTINGS message\<close>

text \<open>
  \<open>message.settings\<close> is a partial settings object: a field that is \<open>None\<close> is not in the
  message. \<open>resetUsage\<close> is \<open>message.resetUsage\<close>. The notification settings, the reload of
  the tabs on enabling and the \<open>SETTINGS_UPDATED\<close> and \<open>EXTENSION_DISABLED\<close> messages do
  not touch the state modelled here and are left out.
\<close>

record settingsUpdate =
  u_dailyLimitMin :: "int option"
  u_allowSnooze :: "bool option"
  u_cooldownMin :: "int option"
  u_enabled :: "bool option"
  u_passcodeHash :: "string option option"
  u_mode :: "string option"

definition mergeSettings :: "settings \<Rightarrow> settingsUpdate \<Rightarrow> settings" where
  "mergeSettings old m =
     \<lparr>dailyLimitMin = (case u_dailyLimitMin m of None \<Rightarrow> dailyLimitMin old | Some v \<Rightarrow> v),
      allowSnooze = (case u_allowSnooze m of None \<Rightarrow> allowSnooze old | Some v \<Rightarrow> v),
      cooldownMin = (case u_cooldownMin m of None \<Rightarrow> cooldownMin old | Some v \<Rightarrow> v),
      enabled = (case u_enabled m of None \<Rightarrow> enabled old | Some v \<Rightarrow> v),
      passcodeHash = (case u_passcodeHash m of None \<Rightarrow> passcodeHash old | Some v \<Rightarrow> v),
      mode = (case u_mode m of None \<Rightarrow> mode old | Some v \<Rightarrow> v)\<rparr>"

text \<open>
  The first block of the handler: a changed daily limit that the in-memory usage already
  reaches (with the 2 s buffer) locks at once. The result is the world after
  \<open>timekeeper.stop()\<close> and the flags object put into \<open>storageUpdates\<close>, if any.
\<close>

definition limitChangeBlock :: "settingsUpdate \<Rightarrow> int \<Rightarrow> world \<Rightarrow> world \<times> flags option" where
  "limitChangeBlock m now w =
     (case u_dailyLimitMin m of
        None \<Rightarrow> (w, None)
      | Some newLimitMin \<Rightarrow>
          if dailyLimitMin (st_settings w) \<noteq> newLimitMin
             \<and> currentUsageMs (tk w) \<ge> newLimitMin * 60 * 1000 - tickBuffer
          then let w1 = stop now (w\<lparr>tk := (tk w)\<lparr>isLocked := True\<rparr>\<rparr>)
               in (w1, Some ((st_flags w1)\<lparr>locked := True,
                                            frozenTimeUsed := Some (newLimitMin * 60 * 1000)\<rparr>))
          else (w, None))"

text \<open>
  The second block: a changed cooldown resets the counter and cancels the lock that the
  first block has just prepared. \<open>shouldLockImmediately\<close> is true exactly when the first
  block has put a flags object into \<open>storageUpdates\<close>.
\<close>

definition cooldownChangeBlock ::
  "settingsUpdate \<Rightarrow> settings \<Rightarrow> int \<Rightarrow> world \<times> flags option \<Rightarrow> world \<times> usage option \<times> flags option" where
  "cooldownChangeBlock m oldSettings now p =
     (case p of (w, flagsUpdate) \<Rightarrow>
        (case u_cooldownMin m of
           None \<Rightarrow> (w, None, flagsUpdate)
         | Some c \<Rightarrow>
             if cooldownMin oldSettings \<noteq> c
             then let w1 = w\<lparr>tk := (tk w)\<lparr>currentUsageMs := 0, isInitialized := True,
                                          isPaused := False\<rparr>\<rparr>;
                      u = \<lparr>millisActive = 0, lastTickAt = now, dateKey = getDateKey now\<rparr>
                  in if flagsUpdate \<noteq> None
                     then (w1\<lparr>tk := (tk w1)\<lparr>isLocked := False\<rparr>\<rparr>, Some u, None)
                     else (w1, Some u, None)
             else (w, None, flagsUpdate)))"

text \<open>
  The handler: the debounce, the two blocks, the \<open>resetUsage\<close> block, the single write of
  \<open>storageUpdates\<close>, and the overlay for a stored \<open>locked\<close> (sent from a 100 ms timer, taken
  here as part of the same step). The first component says whether the answer was
  \<open>{ success: true, debounced: true }\<close>.
\<close>

definition handleUpdateSettings :: "settingsUpdate \<Rightarrow> bool \<Rightarrow> int \<Rightarrow> world \<Rightarrow> bool \<times> world" where
  "handleUpdateSettings m resetUsage now w =
     (if now - lastSettingsUpdate (svc w) < 1000 then (True, w)
      else
        let w0 = w\<lparr>svc := (svc w)\<lparr>lastSettingsUpdate := now\<rparr>\<rparr>;
            oldSettings = st_settings w0
        in case cooldownChangeBlock m oldSettings now (limitChangeBlock m now w0) of
             (w1, usageUpdate, flagsUpdate) \<Rightarrow>
               let usageUpdate2 =
                     (if resetUsage
                      then Some \<lparr>millisActive = 0, lastTickAt = now, dateKey = getDateKey now\<rparr>
                      else usageUpdate);
                   flagsUpdate2 =
                     (if resetUsage
                      then Some ((st_flags w1)\<lparr>nudged := False, locked := False,
                                                snoozed := False, frozenTimeUsed := None\<rparr>)
                      else flagsUpdate);
                   w2 = (if resetUsage then w1\<lparr>tk := (tk w1)\<lparr>isLocked := False\<rparr>\<rparr> else w1);
                   w3 = w2\<lparr>st_settings := mergeSettings oldSettings m,
                           st_usage := (case usageUpdate2 of None \<Rightarrow> st_usage w2 | Some u \<Rightarrow> u),
                           st_flags := (case flagsUpdate2 of None \<Rightarrow> st_flags w2 | Some f \<Rightarrow> f)\<rparr>
               in (False,
                   if (case flagsUpdate2 of None \<Rightarrow> False | Some f \<Rightarrow> locked f)
                   then w3\<lparr>outbox := outbox w3 @ [SHOW_SOFT_LOCK]\<rparr> else w3))"

section \<open>Sessions and runs\<close>

text \<open>
  A service-worker session starts from whatever \<open>chrome.storage.local\<close> holds, with the
  in-memory fields as the constructors set them.
\<close>

definition freshSession :: "settings \<Rightarrow> usage \<Rightarrow> flags \<Rightarrow> int \<Rightarrow> int \<Rightarrow> world" where
  "freshSession s u f loaded saveInterval =
     \<lparr>st_settings = s, st_usage = u, st_flags = f,
      tk = \<lparr>isActive = False, lastTickTime = None, tickInterval = False,
            usageSaveInterval = saveInterval, lastUsageSave = 0, currentUsageMs = 0,
            isInitialized = False, isPaused = False, isLocked = False,
            lastActiveChange = 0, writeBackoffUntil = 0\<rparr>,
      svc = \<lparr>isTracking = False, lastPauseToggle = 0, lastSettingsUpdate = 0,
             lastSnoozeRequest = 0, snoozeInProgress = False, lastResetRequestAt = 0,
             suppressStopUntil = 0\<rparr>,
      snoozeTimers = [], outbox = [], loadedAt = loaded\<rparr>"

text \<open>The inbound events, each with what it reads from the host.\<close>

datatype event =
    TICK int bool bool
  | SNOOZE_REQUEST int
  | SNOOZE_TIMEOUT int
  | BYPASS_REQUEST string
  | CLEAR_LOCK
  | SET_PASSCODE string
  | PAUSE_TOGGLE trackingEnv int
  | MANUAL_RESET trackingEnv int
  | UPDATE_SETTINGS settingsUpdate bool int
  | DAILY_RESET int
  | UPDATE_TRACKING trackingEnv int
  | USER_ACTIVITY int

fun step :: "event \<Rightarrow> world \<Rightarrow> world" where
  "step (TICK now idle writeOk) w = tick now idle writeOk w"
| "step (SNOOZE_REQUEST now) w = snd (handleSnoozeRequest now w)"
| "step (SNOOZE_TIMEOUT now) w = fireSnoozeTimer now w"
| "step (BYPASS_REQUEST passcode) w = snd (handleBypassRequest passcode w)"
| "step CLEAR_LOCK w = clearLockedState w"
| "step (SET_PASSCODE passcode) w = setPasscode passcode w"
| "step (PAUSE_TOGGLE env now) w = togglePause env now w"
| "step (MANUAL_RESET env now) w = manualReset env now w"
| "step (UPDATE_SETTINGS m resetUsage now) w = snd (handleUpdateSettings m resetUsage now w)"
| "step (DAILY_RESET now) w = snd (checkDailyReset now w)"
| "step (UPDATE_TRACKING env now) w = updateTrackingImmediate env now w"
| "step (USER_ACTIVITY now) w = userActivity now w"

fun run :: "event list \<Rightarrow> world \<Rightarrow> world" where
  "run [] w = w"
| "run (e # es) w = run es (step e w)"

text \<open>A run of ticks only: each entry is the clock reading, the idle answer and the write outcome.\<close>

fun runTicks :: "(int \<times> bool \<times> bool) list \<Rightarrow> world \<Rightarrow> world" where
  "runTicks [] w = w"
| "runTicks ((now, idle, writeOk) # ts) w = runTicks ts (tick now idle writeOk w)"

text \<open>How many nudges the worker has sent so far.\<close>

definition nudgesSent :: "world \<Rightarrow> nat" where
  "nudgesSent w = length (filter (\<lambda>d. case d of SHOW_NUDGE t \<Rightarrow> True | _ \<Rightarrow> False) (outbox w))"

section \<open>Example sessions\<close>

text \<open>
  \<open>t2024\<close> is 2024-01-01T00:00:00Z. \<open>envOn\<close> is a host in which an in-scope tab is the
  active tab of the focused window. \<open>sessionWith s\<close> is a session that starts at \<open>t2024\<close>
  with settings \<open>s\<close> and fresh usage and flags; \<open>trackedSession s\<close> is that session one
  second later, after the tracking update that starts the clock.
\<close>

definition t2024 :: int where
  "t2024 = 1704067200000"

definition envOn :: trackingEnv where
  "envOn = \<lparr>hasActiveXTabInFocusedWindow = True, hasActiveXTabAnywhere = True, popupOpen = False\<rparr>"

definition sessionWith :: "settings \<Rightarrow> world" where
  "sessionWith s = freshSession s (DEFAULT_USAGE t2024) DEFAULT_FLAGS t2024 60000"

definition trackedSession :: "settings \<Rightarrow> world" where
  "trackedSession s = updateTrackingImmediate envOn (t2024 + 1000) (sessionWith s)"

text \<open>Settings for the examples: the extension enabled with a one-minute daily limit.\<close>

definition oneMinute :: settings where
  "oneMinute = DEFAULT_SETTINGS\<lparr>enabled := True, dailyLimitMin := 1\<rparr>"

definition tenMinutes :: settings where
  "tenMinutes = DEFAULT_SETTINGS\<lparr>enabled := True, dailyLimitMin := 10\<rparr>"

text \<open>
  The one-minute session as a fresh session, one tick of 58.5 s after the clock started
  (which locks it), the snooze granted at 70 s, and the cooldown timer firing 300 s later.
\<close>

definition oneMinuteFresh :: world where
  "oneMinuteFresh = freshSession oneMinute (DEFAULT_USAGE t2024) DEFAULT_FLAGS t2024 60000"

definition lockedSession :: world where
  "lockedSession = tick (t2024 + 59500) False True (trackedSession oneMinute)"

definition snoozedSession :: world where
  "snoozedSession = snd (handleSnoozeRequest (t2024 + 70000) lockedSession)"

definition afterCooldown :: world where
  "afterCooldown = fireSnoozeTimer (t2024 + 370000) snoozedSession"

text \<open>
  The snoozed session with the clock started again at 71 s and one tick 298 s later, two
  seconds before the cooldown timer is due.
\<close>

definition lockedWhileSnoozed :: world where
  "lockedWhileSnoozed =
     tick (t2024 + 369000) False True (updateTrackingImmediate envOn (t2024 + 71000) snoozedSession)"

text \<open>The locked session with the passcode \<open>1234\<close> stored by \<open>SET_PASSCODE\<close>.\<close>

definition lockedWithPasscode :: world where
  "lockedWithPasscode = setPasscode ''1234'' lockedSession"

text \<open>
  A ten-minute session with two minutes used, and two settings messages: one lowers the
  daily limit to one minute, the other also changes the cooldown.
\<close>

definition twoMinutesUsed :: world where
  "twoMinutesUsed = tick (t2024 + 121000) False True (trackedSession tenMinutes)"

definition lowerLimitTo1 :: settingsUpdate where
  "lowerLimitTo1 = \<lparr>u_dailyLimitMin = Some 1, u_allowSnooze = None, u_cooldownMin = None,
                     u_enabled = None, u_passcodeHash = None, u_mode = None\<rparr>"

definition lowerLimitAndCooldown :: settingsUpdate where
  "lowerLimitAndCooldown = lowerLimitTo1\<lparr>u_cooldownMin := Some 10\<rparr>"

section \<open>Invariants of runs\<close>

text \<open>
  With a daily limit of one minute and no snooze, whoever has accumulated 58 s is locked
  with the displayed usage frozen at 60000.
\<close>

definition oneMinuteInv :: "world \<Rightarrow> bool" where
  "oneMinuteInv w \<longleftrightarrow>
     dailyLimitMin (st_settings w) = 1 \<and> \<not> snoozed (st_flags w) \<and>
     (58000 \<le> currentUsageMs (tk w) \<longrightarrow>
        locked (st_flags w) \<and> frozenTimeUsed (st_flags w) = Some 60000 \<and> isLocked (tk w))"

text \<open>
  With a daily limit of ten minutes, snooze allowed and no snooze running: below 480000 ms
  no nudge has been sent beyond the \<open>n0\<close> sent before, from 480000 ms on exactly one has,
  and from 598000 ms on the worker is locked.
\<close>

definition nudgeInv :: "nat \<Rightarrow> world \<Rightarrow> bool" where
  "nudgeInv n0 w \<longleftrightarrow>
     dailyLimitMin (st_settings w) = 10 \<and> allowSnooze (st_settings w) \<and> \<not> snoozed (st_flags w) \<and>
     (if currentUsageMs (tk w) < 480000
      then nudgesSent w = n0 \<and> \<not> nudged (st_flags w) \<and> \<not> locked (st_flags w)
      else nudgesSent w = n0 + 1 \<and>
           (if currentUsageMs (tk w) < 598000
            then nudged (st_flags w) \<and> \<not> locked (st_flags w)
            else locked (st_flags w)))"

text \<open>
  At most one cooldown timer is pending, and while one is pending the guard
  \<open>snoozeInProgress\<close> is set. This holds in every state a session can reach.
\<close>

definition timerInv :: "world \<Rightarrow> bool" where
  "timerInv w \<longleftrightarrow>
     (snoozeInProgress (svc w) \<or> snoozeTimers w = []) \<and> length (snoozeTimers w) \<le> 1"

section \<open>What each operation leaves unchanged\<close>

lemma stop_frame [simp]:
  "st_settings (stop now w) = st_settings w"
  "st_flags (stop now w) = st_flags w"
  "svc (stop now w) = svc w"
  "snoozeTimers (stop now w) = snoozeTimers w"
  "outbox (stop now w) = outbox w"
  "loadedAt (stop now w) = loadedAt w"
  by (simp_all add: stop_def Let_def)

lemma stop_tk [simp]:
  "isActive (tk (stop now w)) = False"
  "lastTickTime (tk (stop now w)) = None"
  "tickInterval (tk (stop now w)) = False"
  "isLocked (tk (stop now w)) = isLocked (tk w)"
  "isPaused (tk (stop now w)) = isPaused (tk w)"
  "isInitialized (tk (stop now w)) = isInitialized (tk w)"
  "currentUsageMs (tk (stop now w)) = currentUsageMs (tk w)"
  by (simp_all add: stop_def Let_def)

lemma syncWithStorage_frame [simp]:
  "st_settings (syncWithStorage w) = st_settings w"
  "st_usage (syncWithStorage w) = st_usage w"
  "st_flags (syncWithStorage w) = st_flags w"
  "svc (syncWithStorage w) = svc w"
  "snoozeTimers (syncWithStorage w) = snoozeTimers w"
  "outbox (syncWithStorage w) = outbox w"
  "loadedAt (syncWithStorage w) = loadedAt w"
  by (simp_all add: syncWithStorage_def)

lemma start_frame [simp]:
  "st_settings (start now w) = st_settings w"
  "st_usage (start now w) = st_usage w"
  "st_flags (start now w) = st_flags w"
  "svc (start now w) = svc w"
  "snoozeTimers (start now w) = snoozeTimers w"
  "outbox (start now w) = outbox w"
  "loadedAt (start now w) = loadedAt w"
  by (simp_all add: start_def Let_def)

lemma setActive_frame [simp]:
  "st_settings (setActive a now w) = st_settings w"
  "st_usage (setActive a now w) = st_usage w"
  "st_flags (setActive a now w) = st_flags w"
  "svc (setActive a now w) = svc w"
  "snoozeTimers (setActive a now w) = snoozeTimers w"
  "outbox (setActive a now w) = outbox w"
  "loadedAt (setActive a now w) = loadedAt w"
  "isLocked (tk (setActive a now w)) = isLocked (tk w)"
  "currentUsageMs (tk (setActive a now w)) = currentUsageMs (tk w)"
  by (simp_all add: setActive_def)

lemma triggerNudge_frame [simp]:
  "st_settings (triggerNudge w) = st_settings w"
  "st_usage (triggerNudge w) = st_usage w"
  "tk (triggerNudge w) = tk w"
  "svc (triggerNudge w) = svc w"
  "snoozeTimers (triggerNudge w) = snoozeTimers w"
  "loadedAt (triggerNudge w) = loadedAt w"
  "locked (st_flags (triggerNudge w)) = locked (st_flags w)"
  "pausedToday (st_flags (triggerNudge w)) = pausedToday (st_flags w)"
  "snoozed (st_flags (triggerNudge w)) = snoozed (st_flags w)"
  "snoozeUsedToday (st_flags (triggerNudge w)) = snoozeUsedToday (st_flags w)"
  "frozenTimeUsed (st_flags (triggerNudge w)) = frozenTimeUsed (st_flags w)"
  by (simp_all add: triggerNudge_def Let_def)

lemma effectiveLimitMillis_nudge [simp]:
  "effectiveLimitMillis s (st_flags (triggerNudge w)) = effectiveLimitMillis s (st_flags w)"
  by (simp add: effectiveLimitMillis_def)

lemma triggerLimit_frame [simp]:
  "st_settings (triggerLimit now w) = st_settings w"
  "svc (triggerLimit now w) = svc w"
  "snoozeTimers (triggerLimit now w) = snoozeTimers w"
  "loadedAt (triggerLimit now w) = loadedAt w"
  "currentUsageMs (tk (triggerLimit now w)) = currentUsageMs (tk w)"
  "snoozed (st_flags (triggerLimit now w)) = snoozed (st_flags w)"
  "pausedToday (st_flags (triggerLimit now w)) = pausedToday (st_flags w)"
  "snoozeUsedToday (st_flags (triggerLimit now w)) = snoozeUsedToday (st_flags w)"
  by (simp_all add: triggerLimit_def Let_def)

lemma checkLimits_frame [simp]:
  "st_settings (checkLimits u now w) = st_settings w"
  "svc (checkLimits u now w) = svc w"
  "snoozeTimers (checkLimits u now w) = snoozeTimers w"
  "loadedAt (checkLimits u now w) = loadedAt w"
  "currentUsageMs (tk (checkLimits u now w)) = currentUsageMs (tk w)"
  "snoozed (st_flags (checkLimits u now w)) = snoozed (st_flags w)"
  "pausedToday (st_flags (checkLimits u now w)) = pausedToday (st_flags w)"
  "snoozeUsedToday (st_flags (checkLimits u now w)) = snoozeUsedToday (st_flags w)"
  by (simp_all add: checkLimits_def Let_def)

lemma accumulate_frame [simp]:
  "st_settings (accumulate d now ok w) = st_settings w"
  "st_flags (accumulate d now ok w) = st_flags w"
  "svc (accumulate d now ok w) = svc w"
  "snoozeTimers (accumulate d now ok w) = snoozeTimers w"
  "outbox (accumulate d now ok w) = outbox w"
  "loadedAt (accumulate d now ok w) = loadedAt w"
  "currentUsageMs (tk (accumulate d now ok w)) = currentUsageMs (tk w) + d"
  "isLocked (tk (accumulate d now ok w)) = isLocked (tk w)"
  "isActive (tk (accumulate d now ok w)) = isActive (tk w)"
  "tickInterval (tk (accumulate d now ok w)) = tickInterval (tk w)"
  "lastTickTime (tk (accumulate d now ok w)) = Some now"
  by (simp_all add: accumulate_def Let_def)

lemma newUsage_millis [simp]:
  "millisActive (newUsage d now w) = currentUsageMs (tk w) + d"
  by (simp add: newUsage_def)

lemma tick_frame [simp]:
  "st_settings (tick now idle ok w) = st_settings w"
  "svc (tick now idle ok w) = svc w"
  "snoozeTimers (tick now idle ok w) = snoozeTimers w"
  "loadedAt (tick now idle ok w) = loadedAt w"
  "snoozed (st_flags (tick now idle ok w)) = snoozed (st_flags w)"
  "pausedToday (st_flags (tick now idle ok w)) = pausedToday (st_flags w)"
  "snoozeUsedToday (st_flags (tick now idle ok w)) = snoozeUsedToday (st_flags w)"
  by (simp_all add: tick_def Let_def split: option.split)

lemma updateTrackingImmediate_frame [simp]:
  "st_settings (updateTrackingImmediate env now w) = st_settings w"
  "st_flags (updateTrackingImmediate env now w) = st_flags w"
  "snoozeTimers (updateTrackingImmediate env now w) = snoozeTimers w"
  "outbox (updateTrackingImmediate env now w) = outbox w"
  "loadedAt (updateTrackingImmediate env now w) = loadedAt w"
  "snoozeInProgress (svc (updateTrackingImmediate env now w)) = snoozeInProgress (svc w)"
  "lastSnoozeRequest (svc (updateTrackingImmediate env now w)) = lastSnoozeRequest (svc w)"
  by (simp_all add: updateTrackingImmediate_def Let_def)

lemma togglePause_frame [simp]:
  "st_settings (togglePause env now w) = st_settings w"
  "snoozeTimers (togglePause env now w) = snoozeTimers w"
  "loadedAt (togglePause env now w) = loadedAt w"
  "snoozeInProgress (svc (togglePause env now w)) = snoozeInProgress (svc w)"
  "lastSnoozeRequest (svc (togglePause env now w)) = lastSnoozeRequest (svc w)"
  "snoozeUsedToday (st_flags (togglePause env now w)) = snoozeUsedToday (st_flags w)"
  by (simp_all add: togglePause_def Let_def)

lemma manualReset_frame [simp]:
  "st_settings (manualReset env now w) = st_settings w"
  "snoozeTimers (manualReset env now w) = snoozeTimers w"
  "loadedAt (manualReset env now w) = loadedAt w"
  "snoozeInProgress (svc (manualReset env now w)) = snoozeInProgress (svc w)"
  "lastSnoozeRequest (svc (manualReset env now w)) = lastSnoozeRequest (svc w)"
  by (simp_all add: manualReset_def Let_def)

lemma userActivity_frame [simp]:
  "st_settings (userActivity now w) = st_settings w"
  "st_flags (userActivity now w) = st_flags w"
  "svc (userActivity now w) = svc w"
  "snoozeTimers (userActivity now w) = snoozeTimers w"
  "loadedAt (userActivity now w) = loadedAt w"
  by (simp_all add: userActivity_def)

lemma checkDailyReset_frame [simp]:
  "st_settings (snd (checkDailyReset now w)) = st_settings w"
  "tk (snd (checkDailyReset now w)) = tk w"
  "svc (snd (checkDailyReset now w)) = svc w"
  "snoozeTimers (snd (checkDailyReset now w)) = snoozeTimers w"
  "outbox (snd (checkDailyReset now w)) = outbox w"
  "loadedAt (snd (checkDailyReset now w)) = loadedAt w"
  by (simp_all add: checkDailyReset_def Let_def)

lemma handleBypassRequest_frame [simp]:
  "st_settings (snd (handleBypassRequest p w)) = st_settings w"
  "st_usage (snd (handleBypassRequest p w)) = st_usage w"
  "st_flags (snd (handleBypassRequest p w)) = st_flags w"
  "tk (snd (handleBypassRequest p w)) = tk w"
  "svc (snd (handleBypassRequest p w)) = svc w"
  "snoozeTimers (snd (handleBypassRequest p w)) = snoozeTimers w"
  "loadedAt (snd (handleBypassRequest p w)) = loadedAt w"
  by (simp_all add: handleBypassRequest_def Let_def)

lemma clearLockedState_frame [simp]:
  "st_settings (clearLockedState w) = st_settings w"
  "st_usage (clearLockedState w) = st_usage w"
  "svc (clearLockedState w) = svc w"
  "snoozeTimers (clearLockedState w) = snoozeTimers w"
  "outbox (clearLockedState w) = outbox w"
  "loadedAt (clearLockedState w) = loadedAt w"
  by (simp_all add: clearLockedState_def)

lemma setPasscode_frame [simp]:
  "st_usage (setPasscode p w) = st_usage w"
  "st_flags (setPasscode p w) = st_flags w"
  "tk (setPasscode p w) = tk w"
  "svc (setPasscode p w) = svc w"
  "snoozeTimers (setPasscode p w) = snoozeTimers w"
  "outbox (setPasscode p w) = outbox w"
  "loadedAt (setPasscode p w) = loadedAt w"
  by (simp_all add: setPasscode_def)

lemma limitChangeBlock_frame [simp]:
  "st_settings (fst (limitChangeBlock m now w)) = st_settings w"
  "st_flags (fst (limitChangeBlock m now w)) = st_flags w"
  "svc (fst (limitChangeBlock m now w)) = svc w"
  "snoozeTimers (fst (limitChangeBlock m now w)) = snoozeTimers w"
  "outbox (fst (limitChangeBlock m now w)) = outbox w"
  "loadedAt (fst (limitChangeBlock m now w)) = loadedAt w"
  by (simp_all add: limitChangeBlock_def Let_def split: option.split)

lemma cooldownChangeBlock_frame [simp]:
  "st_settings (fst (cooldownChangeBlock m old now p)) = st_settings (fst p)"
  "st_flags (fst (cooldownChangeBlock m old now p)) = st_flags (fst p)"
  "svc (fst (cooldownChangeBlock m old now p)) = svc (fst p)"
  "snoozeTimers (fst (cooldownChangeBlock m old now p)) = snoozeTimers (fst p)"
  "outbox (fst (cooldownChangeBlock m old now p)) = outbox (fst p)"
  "loadedAt (fst (cooldownChangeBlock m old now p)) = loadedAt (fst p)"
  by (simp_all add: cooldownChangeBlock_def Let_def split: option.split prod.split)

lemma handleUpdateSettings_frame [simp]:
  "snoozeTimers (snd (handleUpdateSettings m r now w)) = snoozeTimers w"
  "loadedAt (snd (handleUpdateSettings m r now w)) = loadedAt w"
  "snoozeInProgress (svc (snd (handleUpdateSettings m r now w))) = snoozeInProgress (svc w)"
  "lastSnoozeRequest (svc (snd (handleUpdateSettings m r now w))) = lastSnoozeRequest (svc w)"
  by (simp_all add: handleUpdateSettings_def Let_def case_prod_beta)

section \<open>Ticks and the limit check\<close>

lemma triggerLimit_locks:
  assumes "enabled (st_settings w)" "\<not> locked (st_flags w)" "\<not> pausedToday (st_flags w)"
    and "effectiveLimitMillis (st_settings w) (st_flags w) - tickBuffer \<le> currentUsageMs (tk w)"
  shows "locked (st_flags (triggerLimit now w))"
    and "frozenTimeUsed (st_flags (triggerLimit now w))
           = Some (effectiveLimitMillis (st_settings w) (st_flags w))"
    and "isLocked (tk (triggerLimit now w))"
    and "\<not> isActive (tk (triggerLimit now w))"
    and "\<not> tickInterval (tk (triggerLimit now w))"
  using assms by (simp_all add: triggerLimit_def Let_def)

lemma checkLimits_locks:
  assumes "enabled (st_settings w)" "\<not> locked (st_flags w)" "\<not> pausedToday (st_flags w)"
    and "millisActive u = currentUsageMs (tk w)"
    and "effectiveLimitMillis (st_settings w) (st_flags w) - tickBuffer \<le> currentUsageMs (tk w)"
  shows "locked (st_flags (checkLimits u now w))"
    and "frozenTimeUsed (st_flags (checkLimits u now w))
           = Some (effectiveLimitMillis (st_settings w) (st_flags w))"
    and "isLocked (tk (checkLimits u now w))"
    and "\<not> isActive (tk (checkLimits u now w))"
    and "\<not> tickInterval (tk (checkLimits u now w))"
  using assms by (simp_all add: checkLimits_def Let_def triggerLimit_locks)

lemma checkLimits_below:
  assumes "millisActive u < effectiveLimitMillis (st_settings w) (st_flags w) - tickBuffer"
  shows "locked (st_flags (checkLimits u now w)) = locked (st_flags w)"
    and "frozenTimeUsed (st_flags (checkLimits u now w)) = frozenTimeUsed (st_flags w)"
    and "isLocked (tk (checkLimits u now w)) = isLocked (tk w)"
  using assms by (simp_all add: checkLimits_def Let_def)

lemma tick_accumulates:
  assumes "isActive (tk w)" "lastTickTime (tk w) = Some lt" "lt \<noteq> 0" "100 \<le> now - lt" "\<not> idle"
    and "enabled (st_settings w)" "\<not> pausedToday (st_flags w)" "\<not> locked (st_flags w)"
    and "\<not> isLocked (tk w)"
  shows "tick now idle writeOk w
           = checkLimits (newUsage (now - lt) now w) now (accumulate (now - lt) now writeOk w)"
  using assms by (simp add: tick_def Let_def)

lemma tick_disj:
  "tick now idle ok w = w
   \<or> tick now idle ok w = w\<lparr>tk := (tk w)\<lparr>lastTickTime := Some now\<rparr>\<rparr>
   \<or> (\<exists>lt. isActive (tk w) \<and> lastTickTime (tk w) = Some lt \<and> lt \<noteq> 0 \<and> 100 \<le> now - lt
         \<and> \<not> idle \<and> enabled (st_settings w) \<and> \<not> pausedToday (st_flags w)
         \<and> \<not> locked (st_flags w) \<and> \<not> isLocked (tk w)
         \<and> tick now idle ok w
             = checkLimits (newUsage (now - lt) now w) now (accumulate (now - lt) now ok w))"
proof (cases "lastTickTime (tk w)")
  case None
  then show ?thesis by (simp add: tick_def)
next
  case (Some lt)
  then show ?thesis by (simp add: tick_def Let_def)
qed

lemma tick_cases [case_names skip anchor acc]:
  obtains "tick now idle ok w = w"
  | "tick now idle ok w = w\<lparr>tk := (tk w)\<lparr>lastTickTime := Some now\<rparr>\<rparr>"
  | lt where "isActive (tk w)" "lastTickTime (tk w) = Some lt" "lt \<noteq> 0" "100 \<le> now - lt"
      "\<not> idle" "enabled (st_settings w)" "\<not> pausedToday (st_flags w)" "\<not> locked (st_flags w)"
      "\<not> isLocked (tk w)"
      "tick now idle ok w
         = checkLimits (newUsage (now - lt) now w) now (accumulate (now - lt) now ok w)"
  using tick_disj [of now idle ok w] by blast

lemma oneMinuteInv_tick: "oneMinuteInv w \<Longrightarrow> oneMinuteInv (tick now idle ok w)"
proof (cases now idle ok w rule: tick_cases)
  case skip
  assume "oneMinuteInv w" then show ?thesis by (simp add: skip)
next
  case anchor
  assume "oneMinuteInv w" then show ?thesis by (simp add: anchor oneMinuteInv_def)
next
  case (acc lt)
  assume inv: "oneMinuteInv w"
  let ?a = "accumulate (now - lt) now ok w"
  let ?u = "newUsage (now - lt) now w"
  have lim: "effectiveLimitMillis (st_settings w) (st_flags w) = 60000"
    using inv by (simp add: oneMinuteInv_def effectiveLimitMillis_def)
  show ?thesis
  proof (cases "58000 \<le> currentUsageMs (tk w) + (now - lt)")
    case True
    then have "effectiveLimitMillis (st_settings ?a) (st_flags ?a) - tickBuffer
                 \<le> currentUsageMs (tk ?a)"
      by (simp add: lim tickBuffer_def)
    from checkLimits_locks(1-3) [of ?a ?u now, OF _ _ _ _ this] acc lim inv
    show ?thesis by (simp add: oneMinuteInv_def)
  next
    case False
    then show ?thesis using inv acc by (simp add: oneMinuteInv_def)
  qed
qed

lemma oneMinuteInv_runTicks: "oneMinuteInv w \<Longrightarrow> oneMinuteInv (runTicks ts w)"
  by (induction ts arbitrary: w) (auto simp: oneMinuteInv_tick)

section \<open>The nudge\<close>

lemma nudgesSent_outbox: "outbox w' = outbox w \<Longrightarrow> nudgesSent w' = nudgesSent w"
  by (simp add: nudgesSent_def)

lemma nudgesSent_triggerLimit [simp]: "nudgesSent (triggerLimit now w) = nudgesSent w"
  by (simp add: triggerLimit_def Let_def nudgesSent_def)

lemma triggerNudge_fires:
  assumes "enabled (st_settings w)" "allowSnooze (st_settings w)" "\<not> nudged (st_flags w)"
    "\<not> pausedToday (st_flags w)" "\<not> snoozed (st_flags w)" "\<not> locked (st_flags w)"
  shows "nudgesSent (triggerNudge w) = nudgesSent w + 1" "nudged (st_flags (triggerNudge w))"
  using assms by (simp_all add: triggerNudge_def Let_def nudgesSent_def)

lemma triggerLimit_below:
  assumes "currentUsageMs (tk w) < effectiveLimitMillis (st_settings w) (st_flags w) - tickBuffer"
  shows "triggerLimit now w = w"
  using assms by (simp add: triggerLimit_def Let_def)

text \<open>What \<open>checkLimits\<close> does for a ten-minute limit outside a snooze.\<close>

lemma checkLimits_ten:
  assumes s: "dailyLimitMin (st_settings w) = 10" "enabled (st_settings w)"
    and f: "\<not> snoozed (st_flags w)" "\<not> pausedToday (st_flags w)" "\<not> locked (st_flags w)"
    and u: "millisActive u = currentUsageMs (tk w)"
  shows "checkLimits u now w =
          (let w1 = (if \<not> nudged (st_flags w) \<and> 480000 \<le> currentUsageMs (tk w)
                     then triggerNudge w else w)
           in if 598000 \<le> currentUsageMs (tk w) then triggerLimit now w1 else w1)"
  using assms by (simp add: checkLimits_def Let_def effectiveLimitMillis_def tickBuffer_def)

lemma nudgeInv_checkLimits:
  assumes s: "dailyLimitMin (st_settings w) = 10" "enabled (st_settings w)" "allowSnooze (st_settings w)"
    and f: "\<not> snoozed (st_flags w)" "\<not> pausedToday (st_flags w)" "\<not> locked (st_flags w)"
    and u: "millisActive u = currentUsageMs (tk w)"
    and n: "if nudged (st_flags w) then nudgesSent w = n0 + 1 \<and> 480000 \<le> currentUsageMs (tk w)
            else nudgesSent w = n0"
  shows "nudgeInv n0 (checkLimits u now w)"
proof -
  have lim: "effectiveLimitMillis (st_settings w) (st_flags w) = 600000"
    using s f by (simp add: effectiveLimitMillis_def)
  let ?c = "currentUsageMs (tk w)"
  consider (below) "?c < 480000" | (mid) "480000 \<le> ?c" "?c < 598000" | (top) "598000 \<le> ?c"
    by linarith
  then show ?thesis
  proof cases
    case below
    then have "checkLimits u now w = w"
      using checkLimits_ten [OF s(1,2) f u, of now] by simp
    then show ?thesis using below s f n by (simp add: nudgeInv_def split: if_splits)
  next
    case mid
    show ?thesis
    proof (cases "nudged (st_flags w)")
      case True
      then have "checkLimits u now w = w"
        using checkLimits_ten [OF s(1,2) f u, of now] mid by simp
      then show ?thesis using mid s f n True by (simp add: nudgeInv_def)
    next
      case False
      then have c: "checkLimits u now w = triggerNudge w"
        using checkLimits_ten [OF s(1,2) f u, of now] mid by simp
      show ?thesis
        unfolding c nudgeInv_def
        using mid s f n False triggerNudge_fires [OF s(2,3) False f(2,1,3)] by simp
    qed
  next
    case top
    show ?thesis
    proof (cases "nudged (st_flags w)")
      case True
      then have c: "checkLimits u now w = triggerLimit now w"
        using checkLimits_ten [OF s(1,2) f u, of now] top by simp
      have "locked (st_flags (triggerLimit now w))"
        using triggerLimit_locks(1) [of w now] s f top lim by (simp add: tickBuffer_def)
      then show ?thesis
        unfolding c nudgeInv_def using top s f n True by simp
    next
      case False
      then have c: "checkLimits u now w = triggerLimit now (triggerNudge w)"
        using checkLimits_ten [OF s(1,2) f u, of now] top by simp
      have "locked (st_flags (triggerLimit now (triggerNudge w)))"
        using triggerLimit_locks(1) [of "triggerNudge w" now] s f top lim
        by (simp add: tickBuffer_def)
      then show ?thesis
        unfolding c nudgeInv_def
        using top s f n False triggerNudge_fires(1) [OF s(2,3) False f(2,1,3)] by simp
    qed
  qed
qed

lemma nudgeInv_tick: "nudgeInv n0 w \<Longrightarrow> nudgeInv n0 (tick now idle ok w)"
proof (cases now idle ok w rule: tick_cases)
  case skip
  assume "nudgeInv n0 w" then show ?thesis by (simp add: skip)
next
  case anchor
  assume "nudgeInv n0 w"
  moreover have "nudgesSent (w\<lparr>tk := (tk w)\<lparr>lastTickTime := Some now\<rparr>\<rparr>) = nudgesSent w"
    by (simp add: nudgesSent_def)
  ultimately show ?thesis by (simp add: anchor nudgeInv_def)
next
  case (acc lt)
  assume inv: "nudgeInv n0 w"
  let ?a = "accumulate (now - lt) now ok w"
  have n: "nudgesSent ?a = nudgesSent w" by (simp add: nudgesSent_def)
  have "nudgeInv n0 (checkLimits (newUsage (now - lt) now w) now ?a)"
  proof (rule nudgeInv_checkLimits)
    show "if nudged (st_flags ?a)
          then nudgesSent ?a = n0 + 1 \<and> 480000 \<le> currentUsageMs (tk ?a)
          else nudgesSent ?a = n0"
      using inv acc(4,8) unfolding n by (auto simp: nudgeInv_def split: if_splits)
  qed (use inv acc in \<open>simp_all add: nudgeInv_def\<close>)
  then show ?thesis by (simp add: acc(10))
qed

lemma nudgeInv_runTicks: "nudgeInv n0 w \<Longrightarrow> nudgeInv n0 (runTicks ts w)"
  by (induction ts arbitrary: w) (auto simp: nudgeInv_tick)

lemma tick_usage_mono: "currentUsageMs (tk w) \<le> currentUsageMs (tk (tick now idle ok w))"
  by (cases now idle ok w rule: tick_cases) simp_all

lemma runTicks_usage_mono: "currentUsageMs (tk w) \<le> currentUsageMs (tk (runTicks ts w))"
proof (induction ts arbitrary: w)
  case Nil
  show ?case by simp
next
  case (Cons t ts)
  obtain now idle ok where t: "t = (now, idle, ok)" by (cases t) auto
  have "currentUsageMs (tk w) \<le> currentUsageMs (tk (tick now idle ok w))"
    by (rule tick_usage_mono)
  also have "\<dots> \<le> currentUsageMs (tk (runTicks ts (tick now idle ok w)))"
    by (rule Cons.IH)
  finally show ?case by (simp add: t)
qed

lemma runTicks_append: "runTicks (ts @ ts') w = runTicks ts' (runTicks ts w)"
  by (induction ts arbitrary: w) auto

section \<open>Snooze requests and the cooldown timer\<close>

lemma handleSnoozeRequest_guarded:
  "snoozeInProgress (svc w) \<Longrightarrow> handleSnoozeRequest now w = (Inl ''Snooze in progress'', w)"
  by (simp add: handleSnoozeRequest_def)

lemma handleSnoozeRequest_sets_guard:
  "snoozeInProgress (svc (snd (handleSnoozeRequest now w)))"
  by (simp add: handleSnoozeRequest_def Let_def)

lemma handleSnoozeRequest_results:
  "fst (handleSnoozeRequest now w) \<in>
     {Inr (), Inl ''Snooze in progress'', Inl ''Please wait before requesting snooze again'',
      Inl ''Snooze not allowed'', Inl ''Snooze already used today''}"
  by (simp add: handleSnoozeRequest_def Let_def)

lemma handleSnoozeRequest_success_iff:
  "fst (handleSnoozeRequest now w) = Inr () \<longleftrightarrow>
     \<not> snoozeInProgress (svc w) \<and> 2000 \<le> now - lastSnoozeRequest (svc w)
     \<and> allowSnooze (st_settings w) \<and> \<not> snoozed (st_flags w) \<and> \<not> snoozeUsedToday (st_flags w)"
  by (simp add: handleSnoozeRequest_def Let_def)

lemma handleSnoozeRequest_success:
  assumes "fst (handleSnoozeRequest now w) = Inr ()"
  shows "millisActive (st_usage (snd (handleSnoozeRequest now w))) = 0"
    and "currentUsageMs (tk (snd (handleSnoozeRequest now w))) = 0"
    and "st_flags (snd (handleSnoozeRequest now w))
           = (st_flags w)\<lparr>snoozed := True, snoozeUsedToday := True, locked := False,
                           nudged := False, frozenTimeUsed := None\<rparr>"
    and "snoozeTimers (snd (handleSnoozeRequest now w))
           = snoozeTimers w @ [(now + cooldownOr5 (st_settings w) * 60 * 1000,
                                cooldownOr5 (st_settings w) * 60 * 1000)]"
    and "st_settings (snd (handleSnoozeRequest now w)) = st_settings w"
    and "dateKey (st_usage (snd (handleSnoozeRequest now w))) = getDateKey now"
    and "\<not> isLocked (tk (snd (handleSnoozeRequest now w)))"
  using assms [unfolded handleSnoozeRequest_success_iff]
  by (simp_all add: handleSnoozeRequest_def Let_def)

lemma handleSnoozeRequest_failure:
  assumes "fst (handleSnoozeRequest now w) \<noteq> Inr ()"
  shows "snoozeTimers (snd (handleSnoozeRequest now w)) = snoozeTimers w"
    and "st_flags (snd (handleSnoozeRequest now w)) = st_flags w"
    and "st_usage (snd (handleSnoozeRequest now w)) = st_usage w"
    and "tk (snd (handleSnoozeRequest now w)) = tk w"
    and "st_settings (snd (handleSnoozeRequest now w)) = st_settings w"
  using assms [unfolded handleSnoozeRequest_success_iff]
  by (auto simp: handleSnoozeRequest_def Let_def)

lemma handleSnoozeRequest_own_reason:
  assumes "fst (handleSnoozeRequest now w) = Inl msg" "msg \<noteq> ''Snooze in progress''"
  shows "\<not> snoozeInProgress (svc w)"
  using assms by (auto simp: handleSnoozeRequest_def)

lemma handleSnoozeRequest_already_used:
  assumes "\<not> snoozeInProgress (svc w)" "2000 \<le> now - lastSnoozeRequest (svc w)"
    "allowSnooze (st_settings w)" "snoozed (st_flags w) \<or> snoozeUsedToday (st_flags w)"
  shows "fst (handleSnoozeRequest now w) = Inl ''Snooze already used today''"
  using assms by (auto simp: handleSnoozeRequest_def Let_def)

lemma handleSnoozeRequest_frame [simp]:
  "loadedAt (snd (handleSnoozeRequest now w)) = loadedAt w"
  by (simp add: handleSnoozeRequest_def Let_def)

lemma snoozeTimeout_effect:
  "st_flags (snoozeTimeout ms now w)
     = (st_flags w)\<lparr>snoozed := False, locked := True, nudged := False, frozenTimeUsed := Some ms\<rparr>"
  "isLocked (tk (snoozeTimeout ms now w))"
  "\<not> isActive (tk (snoozeTimeout ms now w))"
  "\<not> tickInterval (tk (snoozeTimeout ms now w))"
  "\<not> snoozeInProgress (svc (snoozeTimeout ms now w))"
  "snoozeTimers (snoozeTimeout ms now w) = snoozeTimers w"
  "st_settings (snoozeTimeout ms now w) = st_settings w"
  "loadedAt (snoozeTimeout ms now w) = loadedAt w"
  by (simp_all add: snoozeTimeout_def Let_def)

lemma fireSnoozeTimer_due:
  assumes "snoozeTimers w = (due, ms) # rest" "due \<le> now"
  shows "fireSnoozeTimer now w = snoozeTimeout ms now (w\<lparr>snoozeTimers := rest\<rparr>)"
  using assms by (simp add: fireSnoozeTimer_def)

lemma fireSnoozeTimer_none: "snoozeTimers w = [] \<Longrightarrow> fireSnoozeTimer now w = w"
  by (simp add: fireSnoozeTimer_def)

lemma step_keeps_guard:
  assumes "\<forall>t. e \<noteq> SNOOZE_TIMEOUT t" "snoozeInProgress (svc w)"
  shows "snoozeInProgress (svc (step e w))"
  using assms by (cases e) (simp_all add: handleSnoozeRequest_guarded)

lemma step_keeps_timers:
  assumes "\<forall>t. e \<noteq> SNOOZE_TIMEOUT t"
  shows "\<exists>new. snoozeTimers (step e w) = snoozeTimers w @ new"
proof (cases e)
  case (SNOOZE_REQUEST now)
  show ?thesis
  proof (cases "fst (handleSnoozeRequest now w) = Inr ()")
    case True
    then show ?thesis using SNOOZE_REQUEST by (simp add: handleSnoozeRequest_success(4))
  next
    case False
    then show ?thesis using SNOOZE_REQUEST by (simp add: handleSnoozeRequest_failure(1))
  qed
qed (use assms in simp_all)

lemma stuck_step:
  assumes "snoozeInProgress (svc w)" "snoozeTimers w = []"
  shows "snoozeInProgress (svc (step e w)) \<and> snoozeTimers (step e w) = []"
  using assms by (cases e) (simp_all add: handleSnoozeRequest_guarded fireSnoozeTimer_none)

lemma stuck_run:
  assumes "snoozeInProgress (svc w)" "snoozeTimers w = []"
  shows "snoozeInProgress (svc (run es w)) \<and> snoozeTimers (run es w) = []"
  using assms by (induction es arbitrary: w) (simp_all add: stuck_step)

lemma timerInv_fresh: "timerInv (freshSession s u f loaded si)"
  by (simp add: timerInv_def freshSession_def)

lemma timerInv_step: "timerInv w \<Longrightarrow> timerInv (step e w)"
proof (cases e)
  case (SNOOZE_REQUEST now)
  assume i: "timerInv w"
  show ?thesis
  proof (cases "fst (handleSnoozeRequest now w) = Inr ()")
    case True
    then have "\<not> snoozeInProgress (svc w)" by (simp add: handleSnoozeRequest_success_iff)
    with i have "snoozeTimers w = []" by (simp add: timerInv_def)
    then show ?thesis
      using SNOOZE_REQUEST True
      by (simp add: timerInv_def handleSnoozeRequest_success(4) handleSnoozeRequest_sets_guard)
  next
    case False
    then show ?thesis
      using SNOOZE_REQUEST i
      by (simp add: timerInv_def handleSnoozeRequest_failure(1) handleSnoozeRequest_sets_guard)
  qed
next
  case (SNOOZE_TIMEOUT now)
  assume i: "timerInv w"
  show ?thesis
  proof (cases "snoozeTimers w")
    case Nil
    then show ?thesis using SNOOZE_TIMEOUT i by (simp add: fireSnoozeTimer_none)
  next
    case (Cons tm rest)
    with i have r: "rest = []" by (simp add: timerInv_def)
    obtain due ms where tm: "tm = (due, ms)" by (cases tm)
    show ?thesis
    proof (cases "due \<le> now")
      case True
      then show ?thesis
        using SNOOZE_TIMEOUT Cons tm r
        by (simp add: fireSnoozeTimer_due timerInv_def snoozeTimeout_effect)
    next
      case False
      then show ?thesis using SNOOZE_TIMEOUT Cons tm i by (simp add: fireSnoozeTimer_def)
    qed
  qed
qed (simp_all add: timerInv_def)

lemma timerInv_run: "timerInv w \<Longrightarrow> timerInv (run es w)"
  by (induction es arbitrary: w) (simp_all add: timerInv_step)

section \<open>Claims\<close>

subsection \<open>C1: locked and snoozed together\<close>

text \<open>
  C1 says that \<open>locked\<close> and \<open>snoozed\<close> are never both set, in particular after the lock
  that the limit check takes during a snooze. The cooldown timer and the pause do clear
  \<open>snoozed\<close> when they change \<open>locked\<close>, but \<open>triggerLimit\<close> writes
  \<open>{ locked: true, nudged: false, frozenTimeUsed }\<close> and leaves \<open>snoozed\<close> as it was. The
  session below is reached by a tracking update, a tick, a snooze request, a tracking update
  and a tick that brings the usage to 298000 ms: there both flags are set.
\<close>

theorem lock_during_snooze_leaves_snoozed:
  "snoozed (st_flags snoozedSession) \<and> \<not> locked (st_flags snoozedSession)
   \<and> currentUsageMs (tk lockedWhileSnoozed) = 298000
   \<and> locked (st_flags lockedWhileSnoozed) \<and> snoozed (st_flags lockedWhileSnoozed)
   \<and> frozenTimeUsed (st_flags lockedWhileSnoozed) = Some 300000"
  by code_simp

subsection \<open>C2: the bypass request\<close>

text \<open>
  C2. A bypass request takes the worker out of the locked state only if the passcode is
  valid or none is configured; with a passcode configured and another candidate supplied
  the locked state is unchanged. In the service worker this holds because a bypass request
  never changes the flags or the clock at all: whatever the candidate, the handler ends in
  the \<open>ReferenceError\<close> of the unqualified \<open>clearLockedState()\<close>. For a wrong candidate the
  validation fails and the only effect is the \<open>invalid_passcode\<close> notification.
\<close>

theorem bypass_request_keeps_lock:
  "fst (handleBypassRequest passcode w) = Inl ''clearLockedState is not defined''
   \<and> st_flags (snd (handleBypassRequest passcode w)) = st_flags w
   \<and> tk (snd (handleBypassRequest passcode w)) = tk w
   \<and> (passcodeHash (st_settings w) = Some h \<and> passcode \<noteq> h
      \<longrightarrow> \<not> validatePasscode passcode w
        \<and> locked (st_flags (snd (handleBypassRequest passcode w))) = locked (st_flags w)
        \<and> frozenTimeUsed (st_flags (snd (handleBypassRequest passcode w)))
            = frozenTimeUsed (st_flags w)
        \<and> isLocked (tk (snd (handleBypassRequest passcode w))) = isLocked (tk w)
        \<and> outbox (snd (handleBypassRequest passcode w))
            = outbox w @ [NOTIFICATION ''invalid_passcode''])"
  by (simp add: handleBypassRequest_def validatePasscode_def Let_def)

text \<open>
  The locked one-minute session with the passcode \<open>1234\<close>: a wrong and the right candidate
  both leave \<open>locked\<close> and the frozen value 60000 in place.
\<close>

theorem bypass_request_keeps_lock_witness:
  "passcodeHash (st_settings lockedWithPasscode) = Some ''1234''
   \<and> locked (st_flags lockedWithPasscode)
   \<and> frozenTimeUsed (st_flags lockedWithPasscode) = Some 60000
   \<and> \<not> validatePasscode ''0000'' lockedWithPasscode
   \<and> locked (st_flags (snd (handleBypassRequest ''0000'' lockedWithPasscode)))
   \<and> frozenTimeUsed (st_flags (snd (handleBypassRequest ''0000'' lockedWithPasscode))) = Some 60000
   \<and> validatePasscode ''1234'' lockedWithPasscode
   \<and> locked (st_flags (snd (handleBypassRequest ''1234'' lockedWithPasscode)))"
proof -
  have h: "passcodeHash (st_settings lockedWithPasscode) = Some ''1234''
     \<and> locked (st_flags lockedWithPasscode)
     \<and> frozenTimeUsed (st_flags lockedWithPasscode) = Some 60000
     \<and> validatePasscode ''1234'' lockedWithPasscode"
    by code_simp
  have n: "''0000'' \<noteq> ''1234''" by simp
  note A = bypass_request_keeps_lock [of "''0000''" lockedWithPasscode "''1234''"]
  note B = bypass_request_keeps_lock [of "''1234''" lockedWithPasscode "''1234''"]
  from A h n have 1: "\<not> validatePasscode ''0000'' lockedWithPasscode
     \<and> locked (st_flags (snd (handleBypassRequest ''0000'' lockedWithPasscode)))
     \<and> frozenTimeUsed (st_flags (snd (handleBypassRequest ''0000'' lockedWithPasscode)))
         = Some 60000"
    by simp
  from B h have 2: "locked (st_flags (snd (handleBypassRequest ''1234'' lockedWithPasscode)))"
    by simp
  from h 1 2 show ?thesis by simp
qed

subsection \<open>C3: the lock at the limit\<close>

text \<open>
  C3. Whenever the usage that a tick has accumulated reaches the effective limit minus the
  2000 ms tick buffer, with the extension enabled, not paused and not already locked, the
  limit check of that tick locks: \<open>locked\<close> is set, the displayed usage is frozen at exactly
  the effective limit, and the clock is stopped. In particular, with a daily limit of one
  minute and no snooze, any run of ticks that has accumulated at least 58 s ends locked with
  the frozen value 60000.
\<close>

theorem tick_locks_at_effective_limit:
  "(isActive (tk w) \<and> lastTickTime (tk w) = Some lt \<and> lt \<noteq> 0 \<and> 100 \<le> now - lt \<and> \<not> idle
      \<and> enabled (st_settings w) \<and> \<not> pausedToday (st_flags w) \<and> \<not> locked (st_flags w)
      \<and> \<not> isLocked (tk w)
      \<and> effectiveLimitMillis (st_settings w) (st_flags w) - tickBuffer
           \<le> currentUsageMs (tk w) + (now - lt)
    \<longrightarrow> locked (st_flags (tick now idle writeOk w))
        \<and> frozenTimeUsed (st_flags (tick now idle writeOk w))
             = Some (effectiveLimitMillis (st_settings w) (st_flags w))
        \<and> isLocked (tk (tick now idle writeOk w))
        \<and> \<not> isActive (tk (tick now idle writeOk w))
        \<and> \<not> tickInterval (tk (tick now idle writeOk w)))
   \<and> (dailyLimitMin (st_settings v) = 1 \<and> \<not> snoozed (st_flags v)
        \<and> currentUsageMs (tk v) < 58000 \<and> 58000 \<le> currentUsageMs (tk (runTicks ts v))
    \<longrightarrow> locked (st_flags (runTicks ts v))
        \<and> frozenTimeUsed (st_flags (runTicks ts v)) = Some 60000
        \<and> isLocked (tk (runTicks ts v)))"
proof (intro conjI impI)
  assume h: "dailyLimitMin (st_settings v) = 1 \<and> \<not> snoozed (st_flags v)
        \<and> currentUsageMs (tk v) < 58000 \<and> 58000 \<le> currentUsageMs (tk (runTicks ts v))"
  then have "oneMinuteInv v" by (simp add: oneMinuteInv_def)
  then have i: "oneMinuteInv (runTicks ts v)" by (rule oneMinuteInv_runTicks)
  from i h show "locked (st_flags (runTicks ts v))" by (simp add: oneMinuteInv_def)
  from i h show "frozenTimeUsed (st_flags (runTicks ts v)) = Some 60000"
    by (simp add: oneMinuteInv_def)
  from i h show "isLocked (tk (runTicks ts v))" by (simp add: oneMinuteInv_def)
next
  assume h: "isActive (tk w) \<and> lastTickTime (tk w) = Some lt \<and> lt \<noteq> 0 \<and> 100 \<le> now - lt \<and> \<not> idle
      \<and> enabled (st_settings w) \<and> \<not> pausedToday (st_flags w) \<and> \<not> locked (st_flags w)
      \<and> \<not> isLocked (tk w)
      \<and> effectiveLimitMillis (st_settings w) (st_flags w) - tickBuffer
           \<le> currentUsageMs (tk w) + (now - lt)"
  then have t: "tick now idle writeOk w
           = checkLimits (newUsage (now - lt) now w) now (accumulate (now - lt) now writeOk w)"
    by (simp add: tick_accumulates)
  let ?a = "accumulate (now - lt) now writeOk w"
  have pre: "enabled (st_settings ?a)" "\<not> locked (st_flags ?a)" "\<not> pausedToday (st_flags ?a)"
    "millisActive (newUsage (now - lt) now w) = currentUsageMs (tk ?a)"
    "effectiveLimitMillis (st_settings ?a) (st_flags ?a) - tickBuffer \<le> currentUsageMs (tk ?a)"
    using h by simp_all
  note L = checkLimits_locks [OF pre, of now]
  show "locked (st_flags (tick now idle writeOk w))" unfolding t by (rule L(1))
  show "frozenTimeUsed (st_flags (tick now idle writeOk w))
             = Some (effectiveLimitMillis (st_settings w) (st_flags w))"
    unfolding t using L(2) by simp
  show "isLocked (tk (tick now idle writeOk w))" unfolding t by (rule L(3))
  show "\<not> isActive (tk (tick now idle writeOk w))" unfolding t by (rule L(4))
  show "\<not> tickInterval (tk (tick now idle writeOk w))" unfolding t by (rule L(5))
qed

text \<open>
  A one-minute session with 30 s used: the tick that brings the usage to 58.5 s locks it
  with the frozen value 60000, and so does the run of both ticks.
\<close>

theorem tick_locks_at_effective_limit_witness:
  "(let w = tick (t2024 + 31000) False True (trackedSession oneMinute);
        lt = t2024 + 31000; now = t2024 + 59500
    in isActive (tk w) \<and> lastTickTime (tk w) = Some lt \<and> 100 \<le> now - lt
       \<and> enabled (st_settings w) \<and> \<not> pausedToday (st_flags w) \<and> \<not> locked (st_flags w)
       \<and> \<not> isLocked (tk w) \<and> currentUsageMs (tk w) = 30000
       \<and> effectiveLimitMillis (st_settings w) (st_flags w) = 60000
       \<and> locked (st_flags (tick now False True w))
       \<and> frozenTimeUsed (st_flags (tick now False True w)) = Some 60000)
   \<and> (let v = trackedSession oneMinute;
           ts = [(t2024 + 31000, False, True), (t2024 + 59500, False, True)]
       in dailyLimitMin (st_settings v) = 1 \<and> currentUsageMs (tk v) = 0
          \<and> currentUsageMs (tk (runTicks ts v)) = 58500
          \<and> locked (st_flags (runTicks ts v))
          \<and> frozenTimeUsed (st_flags (runTicks ts v)) = Some 60000)"
proof -
  let ?w = "tick (t2024 + 31000) False True (trackedSession oneMinute)"
  let ?v = "trackedSession oneMinute"
  let ?ts = "[(t2024 + 31000, False, True), (t2024 + 59500, False, True)]"
  have hw: "isActive (tk ?w) \<and> lastTickTime (tk ?w) = Some (t2024 + 31000) \<and> t2024 + 31000 \<noteq> 0
      \<and> 100 \<le> (t2024 + 59500) - (t2024 + 31000) \<and> \<not> False
      \<and> enabled (st_settings ?w) \<and> \<not> pausedToday (st_flags ?w) \<and> \<not> locked (st_flags ?w)
      \<and> \<not> isLocked (tk ?w)
      \<and> effectiveLimitMillis (st_settings ?w) (st_flags ?w) - tickBuffer
           \<le> currentUsageMs (tk ?w) + ((t2024 + 59500) - (t2024 + 31000))"
    by code_simp
  have hv: "dailyLimitMin (st_settings ?v) = 1 \<and> \<not> snoozed (st_flags ?v)
        \<and> currentUsageMs (tk ?v) < 58000 \<and> 58000 \<le> currentUsageMs (tk (runTicks ?ts ?v))"
    by code_simp
  have e: "currentUsageMs (tk ?w) = 30000 \<and> effectiveLimitMillis (st_settings ?w) (st_flags ?w) = 60000
      \<and> currentUsageMs (tk ?v) = 0 \<and> currentUsageMs (tk (runTicks ?ts ?v)) = 58500"
    by code_simp
  from tick_locks_at_effective_limit
         [of ?w "t2024 + 31000" "t2024 + 59500" False True ?v ?ts] hw hv e
  show ?thesis unfolding Let_def by (metis (no_types, lifting))
qed

subsection \<open>C4: what a successful snooze does\<close>

text \<open>
  C4. A successful snooze resets the usage to 0 (stored and in memory), clears \<open>locked\<close>,
  \<open>nudged\<close> and the frozen value, sets \<open>snoozed\<close> and \<open>snoozeUsedToday\<close>, and schedules one
  timer, due \<open>cooldownMinutes\<close> later, where \<open>cooldownMinutes\<close> is \<open>settings.cooldownMin || 5\<close>
  (the cooldown itself unless it is 0). Before it is due the timer does nothing; once due
  it locks, clears \<open>snoozed\<close> and freezes the usage at \<open>cooldownMinutes * 60000\<close>, in whatever
  state the session then is. The hypothesis \<open>timerInv\<close> holds in every reachable state
  (\<open>timerInv_fresh\<close>, \<open>timerInv_run\<close>).
\<close>

theorem snooze_resets_and_schedules_lock:
  "fst (handleSnoozeRequest now w) = Inr () \<and> timerInv w
   \<longrightarrow> millisActive (st_usage (snd (handleSnoozeRequest now w))) = 0
     \<and> currentUsageMs (tk (snd (handleSnoozeRequest now w))) = 0
     \<and> \<not> locked (st_flags (snd (handleSnoozeRequest now w)))
     \<and> \<not> nudged (st_flags (snd (handleSnoozeRequest now w)))
     \<and> snoozed (st_flags (snd (handleSnoozeRequest now w)))
     \<and> snoozeUsedToday (st_flags (snd (handleSnoozeRequest now w)))
     \<and> frozenTimeUsed (st_flags (snd (handleSnoozeRequest now w))) = None
     \<and> snoozeTimers (snd (handleSnoozeRequest now w))
         = [(now + cooldownOr5 (st_settings w) * 60000, cooldownOr5 (st_settings w) * 60000)]
     \<and> (cooldownMin (st_settings w) \<noteq> 0
          \<longrightarrow> cooldownOr5 (st_settings w) = cooldownMin (st_settings w))
     \<and> (\<forall>v t. snoozeTimers v = snoozeTimers (snd (handleSnoozeRequest now w))
                \<and> t < now + cooldownOr5 (st_settings w) * 60000
           \<longrightarrow> fireSnoozeTimer t v = v)
     \<and> (\<forall>v t. snoozeTimers v = snoozeTimers (snd (handleSnoozeRequest now w))
                \<and> now + cooldownOr5 (st_settings w) * 60000 \<le> t
           \<longrightarrow> locked (st_flags (fireSnoozeTimer t v))
             \<and> \<not> snoozed (st_flags (fireSnoozeTimer t v))
             \<and> frozenTimeUsed (st_flags (fireSnoozeTimer t v))
                 = Some (cooldownOr5 (st_settings w) * 60000)
             \<and> isLocked (tk (fireSnoozeTimer t v)))"
proof (intro impI)
  assume h: "fst (handleSnoozeRequest now w) = Inr () \<and> timerInv w"
  then have ok: "fst (handleSnoozeRequest now w) = Inr ()" and i: "timerInv w" by simp_all
  let ?w' = "snd (handleSnoozeRequest now w)"
  let ?ms = "cooldownOr5 (st_settings w) * 60000"
  from ok have "\<not> snoozeInProgress (svc w)" by (simp add: handleSnoozeRequest_success_iff)
  with i have e: "snoozeTimers w = []" by (simp add: timerInv_def)
  have tm: "snoozeTimers ?w' = [(now + ?ms, ?ms)]"
    using handleSnoozeRequest_success(4) [OF ok] e by simp
  have fl: "\<not> locked (st_flags ?w') \<and> \<not> nudged (st_flags ?w') \<and> snoozed (st_flags ?w')
      \<and> snoozeUsedToday (st_flags ?w') \<and> frozenTimeUsed (st_flags ?w') = None"
    by (simp add: handleSnoozeRequest_success(3) [OF ok])
  have early: "\<forall>v t. snoozeTimers v = snoozeTimers ?w' \<and> t < now + ?ms
                 \<longrightarrow> fireSnoozeTimer t v = v"
    unfolding tm by (simp add: fireSnoozeTimer_def)
  have due: "\<forall>v t. snoozeTimers v = snoozeTimers ?w' \<and> now + ?ms \<le> t
           \<longrightarrow> locked (st_flags (fireSnoozeTimer t v))
             \<and> \<not> snoozed (st_flags (fireSnoozeTimer t v))
             \<and> frozenTimeUsed (st_flags (fireSnoozeTimer t v)) = Some ?ms
             \<and> isLocked (tk (fireSnoozeTimer t v))"
    unfolding tm by (simp add: fireSnoozeTimer_def snoozeTimeout_effect)
  have c: "cooldownMin (st_settings w) \<noteq> 0
             \<longrightarrow> cooldownOr5 (st_settings w) = cooldownMin (st_settings w)"
    by (simp add: cooldownOr5_def)
  from handleSnoozeRequest_success(1,2) [OF ok] fl tm c early due
  show "millisActive (st_usage ?w') = 0
     \<and> currentUsageMs (tk ?w') = 0
     \<and> \<not> locked (st_flags ?w')
     \<and> \<not> nudged (st_flags ?w')
     \<and> snoozed (st_flags ?w')
     \<and> snoozeUsedToday (st_flags ?w')
     \<and> frozenTimeUsed (st_flags ?w') = None
     \<and> snoozeTimers ?w' = [(now + ?ms, ?ms)]
     \<and> (cooldownMin (st_settings w) \<noteq> 0
          \<longrightarrow> cooldownOr5 (st_settings w) = cooldownMin (st_settings w))
     \<and> (\<forall>v t. snoozeTimers v = snoozeTimers ?w' \<and> t < now + ?ms
           \<longrightarrow> fireSnoozeTimer t v = v)
     \<and> (\<forall>v t. snoozeTimers v = snoozeTimers ?w' \<and> now + ?ms \<le> t
           \<longrightarrow> locked (st_flags (fireSnoozeTimer t v))
             \<and> \<not> snoozed (st_flags (fireSnoozeTimer t v))
             \<and> frozenTimeUsed (st_flags (fireSnoozeTimer t v)) = Some ?ms
             \<and> isLocked (tk (fireSnoozeTimer t v)))"
    by blast
qed

text \<open>
  The locked one-minute session with the default cooldown of 5 minutes: the snooze at 70 s
  succeeds, and the timer fires at 370 s with the frozen value 300000.
\<close>

theorem snooze_resets_and_schedules_lock_witness:
  "fst (handleSnoozeRequest (t2024 + 70000) lockedSession) = Inr () \<and> timerInv lockedSession
   \<and> locked (st_flags lockedSession) \<and> currentUsageMs (tk lockedSession) = 58500
   \<and> cooldownMin (st_settings lockedSession) = 5
   \<and> millisActive (st_usage snoozedSession) = 0 \<and> currentUsageMs (tk snoozedSession) = 0
   \<and> \<not> locked (st_flags snoozedSession) \<and> snoozed (st_flags snoozedSession)
   \<and> snoozeTimers snoozedSession = [(t2024 + 370000, 300000)]
   \<and> fireSnoozeTimer (t2024 + 369999) snoozedSession = snoozedSession
   \<and> locked (st_flags afterCooldown) \<and> \<not> snoozed (st_flags afterCooldown)
   \<and> frozenTimeUsed (st_flags afterCooldown) = Some 300000"
proof -
  have h: "fst (handleSnoozeRequest (t2024 + 70000) lockedSession) = Inr () \<and> timerInv lockedSession"
    by code_simp
  have e: "locked (st_flags lockedSession) \<and> currentUsageMs (tk lockedSession) = 58500
     \<and> cooldownMin (st_settings lockedSession) = 5 \<and> cooldownOr5 (st_settings lockedSession) = 5"
    by code_simp
  have a: "t2024 + 369999 < t2024 + 70000 + 5 * 60000" "t2024 + 70000 + 5 * 60000 \<le> t2024 + 370000"
    "t2024 + 70000 + 5 * 60000 = t2024 + 370000"
    by simp_all
  have ms: "cooldownOr5 (st_settings lockedSession) * 60000 = 300000"
    using e by simp
  note T = snooze_resets_and_schedules_lock [of "t2024 + 70000" lockedSession, rule_format, OF h,
      unfolded snoozedSession_def [symmetric] ms]
  from T have s: "millisActive (st_usage snoozedSession) = 0 \<and> currentUsageMs (tk snoozedSession) = 0
     \<and> \<not> locked (st_flags snoozedSession) \<and> snoozed (st_flags snoozedSession)
     \<and> snoozeTimers snoozedSession = [(t2024 + 70000 + 300000, 300000)]"
    by blast
  from T have early: "\<forall>v t. snoozeTimers v = snoozeTimers snoozedSession
      \<and> t < t2024 + 70000 + 300000 \<longrightarrow> fireSnoozeTimer t v = v"
    by blast
  from T have due: "\<forall>v t. snoozeTimers v = snoozeTimers snoozedSession
      \<and> t2024 + 70000 + 300000 \<le> t
      \<longrightarrow> locked (st_flags (fireSnoozeTimer t v)) \<and> \<not> snoozed (st_flags (fireSnoozeTimer t v))
        \<and> frozenTimeUsed (st_flags (fireSnoozeTimer t v)) = Some 300000
        \<and> isLocked (tk (fireSnoozeTimer t v))"
    by blast
  have 1: "fireSnoozeTimer (t2024 + 369999) snoozedSession = snoozedSession"
    using early [rule_format, of snoozedSession "t2024 + 369999"] by simp
  have 2: "locked (st_flags afterCooldown) \<and> \<not> snoozed (st_flags afterCooldown)
     \<and> frozenTimeUsed (st_flags afterCooldown) = Some 300000"
    unfolding afterCooldown_def
    using due [rule_format, of snoozedSession "t2024 + 370000"] by simp
  from h e s 1 2 show ?thesis by simp
qed

subsection \<open>C5: one snooze per day\<close>

text \<open>
  C5 says that a further snooze request on the same date fails with "already used today".
  While the cooldown timer of the granted snooze is pending, the guard \<open>snoozeInProgress\<close>
  is still set, and the request fails with "Snooze in progress" instead.
\<close>

theorem second_snooze_in_cooldown_counterexample:
  "fst (handleSnoozeRequest (t2024 + 70000) lockedSession) = Inr ()
   \<and> dateKey (st_usage snoozedSession) = getDateKey (t2024 + 80000)
   \<and> fst (handleSnoozeRequest (t2024 + 80000) snoozedSession) = Inl ''Snooze in progress''
   \<and> fst (handleSnoozeRequest (t2024 + 80000) snoozedSession) \<noteq> Inl ''Snooze already used today''"
  by code_simp

text \<open>
  C5, amended. While \<open>snoozed\<close> or \<open>snoozeUsedToday\<close> is set, no snooze request is granted;
  a granted snooze sets \<open>snoozeUsedToday\<close> and stamps the usage with the current date. Every
  request returns either success or one of four typed failures. The failure is "Snooze in
  progress" whenever the guard is set (as it is until the cooldown timer fires), and
  "Snooze already used today" for a request with the guard clear, at least 2 s after the
  previous one, with snooze allowed and \<open>snoozeUsedToday\<close> set. After a rollover has reset
  the flags, a request with the guard clear, at least 2 s after the previous one and with
  snooze allowed succeeds.
\<close>

theorem snooze_once_per_dateKey:
  "(snoozed (st_flags w) \<or> snoozeUsedToday (st_flags w)
      \<longrightarrow> fst (handleSnoozeRequest now w) \<noteq> Inr ())
   \<and> (fst (handleSnoozeRequest now w) = Inr ()
      \<longrightarrow> snoozeUsedToday (st_flags (snd (handleSnoozeRequest now w)))
        \<and> dateKey (st_usage (snd (handleSnoozeRequest now w))) = getDateKey now)
   \<and> fst (handleSnoozeRequest now w) \<in>
        {Inr (), Inl ''Snooze in progress'', Inl ''Please wait before requesting snooze again'',
         Inl ''Snooze not allowed'', Inl ''Snooze already used today''}
   \<and> (snoozeInProgress (svc w) \<longrightarrow> fst (handleSnoozeRequest now w) = Inl ''Snooze in progress'')
   \<and> (\<not> snoozeInProgress (svc w) \<and> 2000 \<le> now - lastSnoozeRequest (svc w)
        \<and> allowSnooze (st_settings w) \<and> snoozeUsedToday (st_flags w)
      \<longrightarrow> fst (handleSnoozeRequest now w) = Inl ''Snooze already used today'')
   \<and> (dateKey (st_usage w) \<noteq> getDateKey day
        \<and> \<not> snoozeInProgress (svc w) \<and> 2000 \<le> now - lastSnoozeRequest (svc w)
        \<and> allowSnooze (st_settings w)
      \<longrightarrow> fst (checkDailyReset day w) = True
        \<and> fst (handleSnoozeRequest now (snd (checkDailyReset day w))) = Inr ())"
proof (intro conjI impI)
  show "fst (handleSnoozeRequest now w) \<in>
        {Inr (), Inl ''Snooze in progress'', Inl ''Please wait before requesting snooze again'',
         Inl ''Snooze not allowed'', Inl ''Snooze already used today''}"
    by (rule handleSnoozeRequest_results)
next
  assume "snoozed (st_flags w) \<or> snoozeUsedToday (st_flags w)"
  then show "fst (handleSnoozeRequest now w) \<noteq> Inr ()"
    by (auto simp: handleSnoozeRequest_success_iff)
next
  assume ok: "fst (handleSnoozeRequest now w) = Inr ()"
  show "snoozeUsedToday (st_flags (snd (handleSnoozeRequest now w)))"
    by (simp add: handleSnoozeRequest_success(3) [OF ok])
  show "dateKey (st_usage (snd (handleSnoozeRequest now w))) = getDateKey now"
    by (rule handleSnoozeRequest_success(6) [OF ok])
next
  assume "snoozeInProgress (svc w)"
  then show "fst (handleSnoozeRequest now w) = Inl ''Snooze in progress''"
    by (simp add: handleSnoozeRequest_guarded)
next
  assume "\<not> snoozeInProgress (svc w) \<and> 2000 \<le> now - lastSnoozeRequest (svc w)
        \<and> allowSnooze (st_settings w) \<and> snoozeUsedToday (st_flags w)"
  then show "fst (handleSnoozeRequest now w) = Inl ''Snooze already used today''"
    by (simp add: handleSnoozeRequest_already_used)
next
  assume h: "dateKey (st_usage w) \<noteq> getDateKey day
        \<and> \<not> snoozeInProgress (svc w) \<and> 2000 \<le> now - lastSnoozeRequest (svc w)
        \<and> allowSnooze (st_settings w)"
  then show "fst (checkDailyReset day w) = True"
    by (simp add: checkDailyReset_def Let_def)
  from h have "st_flags (snd (checkDailyReset day w)) = DEFAULT_FLAGS"
    by (simp add: checkDailyReset_def Let_def)
  with h show "fst (handleSnoozeRequest now (snd (checkDailyReset day w))) = Inr ()"
    by (simp add: handleSnoozeRequest_success_iff DEFAULT_FLAGS_def)
qed

text \<open>
  The one-minute session: the snooze at 70 s is granted, a request 10 s later is "in
  progress", a request after the cooldown is "already used today", and the request after the
  rollover to 2024-01-02 is granted.
\<close>

theorem snooze_once_per_dateKey_witness:
  "snoozeUsedToday (st_flags afterCooldown) \<and> \<not> snoozeInProgress (svc afterCooldown)
   \<and> allowSnooze (st_settings afterCooldown)
   \<and> dateKey (st_usage afterCooldown) = ''2024-01-01''
   \<and> fst (handleSnoozeRequest (t2024 + 70000) lockedSession) = Inr ()
   \<and> snoozeUsedToday (st_flags snoozedSession)
   \<and> fst (handleSnoozeRequest (t2024 + 80000) snoozedSession) = Inl ''Snooze in progress''
   \<and> fst (handleSnoozeRequest (t2024 + 400000) afterCooldown) = Inl ''Snooze already used today''
   \<and> getDateKey (t2024 + 86400000) = ''2024-01-02''
   \<and> fst (handleSnoozeRequest (t2024 + 86400000)
             (snd (checkDailyReset (t2024 + 86400000) afterCooldown))) = Inr ()"
proof -
  have h: "snoozeUsedToday (st_flags afterCooldown) \<and> \<not> snoozeInProgress (svc afterCooldown)
     \<and> allowSnooze (st_settings afterCooldown)
     \<and> dateKey (st_usage afterCooldown) = ''2024-01-01''
     \<and> getDateKey (t2024 + 86400000) = ''2024-01-02''
     \<and> 2000 \<le> t2024 + 400000 - lastSnoozeRequest (svc afterCooldown)
     \<and> 2000 \<le> t2024 + 86400000 - lastSnoozeRequest (svc afterCooldown)
     \<and> fst (handleSnoozeRequest (t2024 + 70000) lockedSession) = Inr ()
     \<and> snoozeInProgress (svc snoozedSession)"
    by code_simp
  then have d: "dateKey (st_usage afterCooldown) \<noteq> getDateKey (t2024 + 86400000)" by simp
  note A = snooze_once_per_dateKey [of afterCooldown "t2024 + 400000" "t2024 + 86400000"]
  note B = snooze_once_per_dateKey [of afterCooldown "t2024 + 86400000" "t2024 + 86400000"]
  note C = snooze_once_per_dateKey [of lockedSession "t2024 + 70000" "t2024 + 86400000",
      unfolded snoozedSession_def [symmetric]]
  note D = snooze_once_per_dateKey [of snoozedSession "t2024 + 80000" "t2024 + 86400000"]
  from A h have 1: "fst (handleSnoozeRequest (t2024 + 400000) afterCooldown)
                     = Inl ''Snooze already used today''"
    by blast
  from B h d have 2: "fst (handleSnoozeRequest (t2024 + 86400000)
             (snd (checkDailyReset (t2024 + 86400000) afterCooldown))) = Inr ()"
    by blast
  from C h have 3: "snoozeUsedToday (st_flags snoozedSession)" by blast
  from D h have 4: "fst (handleSnoozeRequest (t2024 + 80000) snoozedSession)
                     = Inl ''Snooze in progress''"
    by blast
  from h 1 2 3 4 show ?thesis by blast
qed

subsection \<open>C6: the cooldown timer cannot be cancelled\<close>

text \<open>
  C6 says that a pause, a manual reset or a day rollover cancels the cooldown timer. The
  handle of the timer is never stored, and none of the three touches it: in the snoozed
  session, a pause at 80 s ends the snooze and leaves the session unlocked, and at 370 s the
  timer locks it with the frozen value 300000; the same happens after a manual reset and
  after a rollover.
\<close>

theorem snooze_timer_fires_after_pause_counterexample:
  "snoozed (st_flags snoozedSession)
   \<and> \<not> snoozed (st_flags (togglePause envOn (t2024 + 80000) snoozedSession))
   \<and> pausedToday (st_flags (togglePause envOn (t2024 + 80000) snoozedSession))
   \<and> \<not> locked (st_flags (togglePause envOn (t2024 + 80000) snoozedSession))
   \<and> locked (st_flags (fireSnoozeTimer (t2024 + 370000)
                         (togglePause envOn (t2024 + 80000) snoozedSession)))
   \<and> frozenTimeUsed (st_flags (fireSnoozeTimer (t2024 + 370000)
                         (togglePause envOn (t2024 + 80000) snoozedSession))) = Some 300000
   \<and> locked (st_flags (fireSnoozeTimer (t2024 + 370000)
                         (manualReset envOn (t2024 + 80000) snoozedSession)))
   \<and> locked (st_flags (fireSnoozeTimer (t2024 + 86400000)
                         (snd (checkDailyReset (t2024 + 86400000) snoozedSession))))"
  by code_simp

text \<open>
  C6, amended. No event other than the firing of the timer itself removes a pending
  cooldown timer: every other event leaves the pending timers in place (a granted snooze
  adds one); in particular a pause toggle, a manual reset and the daily reset check leave
  them unchanged. A due timer fires whatever has happened since the snooze: it sets
  \<open>locked\<close>, clears \<open>snoozed\<close> and freezes the usage at the cooldown it captured.
\<close>

theorem snooze_timer_not_cancelable:
  "((\<forall>t. e \<noteq> SNOOZE_TIMEOUT t) \<longrightarrow> (\<exists>new. snoozeTimers (step e w) = snoozeTimers w @ new))
   \<and> snoozeTimers (togglePause env now w) = snoozeTimers w
   \<and> snoozeTimers (manualReset env now w) = snoozeTimers w
   \<and> snoozeTimers (snd (checkDailyReset now w)) = snoozeTimers w
   \<and> (snoozeTimers w = (due, ms) # rest \<and> due \<le> now
      \<longrightarrow> locked (st_flags (fireSnoozeTimer now w))
        \<and> \<not> snoozed (st_flags (fireSnoozeTimer now w))
        \<and> frozenTimeUsed (st_flags (fireSnoozeTimer now w)) = Some ms
        \<and> isLocked (tk (fireSnoozeTimer now w))
        \<and> snoozeTimers (fireSnoozeTimer now w) = rest)"
proof (intro conjI impI)
  assume "\<forall>t. e \<noteq> SNOOZE_TIMEOUT t"
  then show "\<exists>new. snoozeTimers (step e w) = snoozeTimers w @ new"
    by (rule step_keeps_timers)
next
  assume h: "snoozeTimers w = (due, ms) # rest \<and> due \<le> now"
  then have f: "fireSnoozeTimer now w = snoozeTimeout ms now (w\<lparr>snoozeTimers := rest\<rparr>)"
    by (simp add: fireSnoozeTimer_due)
  show "locked (st_flags (fireSnoozeTimer now w))" unfolding f by (simp add: snoozeTimeout_effect)
  show "\<not> snoozed (st_flags (fireSnoozeTimer now w))" unfolding f by (simp add: snoozeTimeout_effect)
  show "frozenTimeUsed (st_flags (fireSnoozeTimer now w)) = Some ms"
    unfolding f by (simp add: snoozeTimeout_effect)
  show "isLocked (tk (fireSnoozeTimer now w))" unfolding f by (simp add: snoozeTimeout_effect)
  show "snoozeTimers (fireSnoozeTimer now w) = rest" unfolding f by (simp add: snoozeTimeout_effect)
qed simp_all

text \<open>The snoozed session: the pause keeps the timer, and the timer fires.\<close>

theorem snooze_timer_not_cancelable_witness:
  "snoozeTimers snoozedSession = [(t2024 + 370000, 300000)]
   \<and> snoozeTimers (step (PAUSE_TOGGLE envOn (t2024 + 80000)) snoozedSession)
       = [(t2024 + 370000, 300000)]
   \<and> locked (st_flags (fireSnoozeTimer (t2024 + 370000) snoozedSession))
   \<and> frozenTimeUsed (st_flags (fireSnoozeTimer (t2024 + 370000) snoozedSession)) = Some 300000"
proof -
  have h: "snoozeTimers snoozedSession = (t2024 + 370000, 300000) # [] \<and> t2024 + 370000 \<le> t2024 + 370000"
    by code_simp
  have n: "\<forall>t. PAUSE_TOGGLE envOn (t2024 + 80000) \<noteq> SNOOZE_TIMEOUT t" by simp
  note T = snooze_timer_not_cancelable [of "PAUSE_TOGGLE envOn (t2024 + 80000)" snoozedSession
      envOn "t2024 + 370000" "t2024 + 370000" 300000 "[]"]
  from T n obtain new where
    a: "snoozeTimers (step (PAUSE_TOGGLE envOn (t2024 + 80000)) snoozedSession)
          = snoozeTimers snoozedSession @ new"
    by blast
  have b: "snoozeTimers (step (PAUSE_TOGGLE envOn (t2024 + 80000)) snoozedSession)
          = snoozeTimers snoozedSession"
    by simp
  from T h have c: "locked (st_flags (fireSnoozeTimer (t2024 + 370000) snoozedSession))
     \<and> frozenTimeUsed (st_flags (fireSnoozeTimer (t2024 + 370000) snoozedSession)) = Some 300000"
    by blast
  from h a b c show ?thesis by simp
qed

subsection \<open>C7: the daily reset check\<close>

text \<open>
  C7 says that the stored date is compared with the calendar date in local time.
  \<open>getDateKey\<close> is the date part of \<open>toISOString()\<close>, the date in UTC: in a zone one hour
  ahead of UTC, at 23:30 UTC on 2024-01-01 the local date is already 2024-01-02, the stored
  date 2024-01-01 differs from it, and the check changes nothing and answers \<open>false\<close>.
\<close>

theorem checkDailyReset_local_date_counterexample:
  "dateKey (st_usage (sessionWith oneMinute)) = ''2024-01-01''
   \<and> localDateKey 60 (t2024 + 84600000) = ''2024-01-02''
   \<and> dateKey (st_usage (sessionWith oneMinute)) \<noteq> localDateKey 60 (t2024 + 84600000)
   \<and> fst (checkDailyReset (t2024 + 84600000) (sessionWith oneMinute)) = False
   \<and> st_usage (snd (checkDailyReset (t2024 + 84600000) (sessionWith oneMinute)))
       = st_usage (sessionWith oneMinute)"
  by code_simp

text \<open>
  C7, amended. \<open>checkDailyReset\<close> compares the stored date with the current date in UTC. On
  a mismatch it answers \<open>true\<close> and replaces the usage by \<open>DEFAULT_USAGE\<close> with the new date
  and the flags by \<open>DEFAULT_FLAGS\<close>; on a match it answers \<open>false\<close> and changes nothing; and
  a second check on the same UTC date, right after a first one, answers \<open>false\<close> and changes
  nothing. (The copy of \<open>checkDailyReset\<close> in \<open>lib/storage.js\<close>, which the worker does not
  load, makes the same comparison and, when its writes succeed, the same two replacements.)
\<close>

theorem checkDailyReset_idempotent:
  "(dateKey (st_usage w) \<noteq> getDateKey now
      \<longrightarrow> fst (checkDailyReset now w) = True
        \<and> st_usage (snd (checkDailyReset now w))
            = \<lparr>millisActive = 0, lastTickAt = loadedAt w, dateKey = getDateKey now\<rparr>
        \<and> st_flags (snd (checkDailyReset now w)) = DEFAULT_FLAGS)
   \<and> (dateKey (st_usage w) = getDateKey now \<longrightarrow> checkDailyReset now w = (False, w))
   \<and> (getDateKey now' = getDateKey now
      \<longrightarrow> checkDailyReset now' (snd (checkDailyReset now w)) = (False, snd (checkDailyReset now w)))"
  by (simp add: checkDailyReset_def Let_def DEFAULT_USAGE_def)

text \<open>
  The session after the cooldown, stamped 2024-01-01 and locked: the check on 2024-01-02
  resets usage and flags, and the check an hour later is a no-op.
\<close>

theorem checkDailyReset_idempotent_witness:
  "dateKey (st_usage afterCooldown) = ''2024-01-01''
   \<and> getDateKey (t2024 + 86400000) = ''2024-01-02''
   \<and> getDateKey (t2024 + 90000000) = ''2024-01-02''
   \<and> locked (st_flags afterCooldown)
   \<and> fst (checkDailyReset (t2024 + 86400000) afterCooldown) = True
   \<and> st_usage (snd (checkDailyReset (t2024 + 86400000) afterCooldown))
       = \<lparr>millisActive = 0, lastTickAt = loadedAt afterCooldown, dateKey = ''2024-01-02''\<rparr>
   \<and> st_flags (snd (checkDailyReset (t2024 + 86400000) afterCooldown)) = DEFAULT_FLAGS
   \<and> checkDailyReset (t2024 + 90000000) (snd (checkDailyReset (t2024 + 86400000) afterCooldown))
       = (False, snd (checkDailyReset (t2024 + 86400000) afterCooldown))"
proof -
  have h: "dateKey (st_usage afterCooldown) = ''2024-01-01''
     \<and> getDateKey (t2024 + 86400000) = ''2024-01-02''
     \<and> getDateKey (t2024 + 90000000) = ''2024-01-02''
     \<and> locked (st_flags afterCooldown)"
    by code_simp
  then have d: "dateKey (st_usage afterCooldown) \<noteq> getDateKey (t2024 + 86400000)"
    and e: "getDateKey (t2024 + 90000000) = getDateKey (t2024 + 86400000)"
    by simp_all
  note T = checkDailyReset_idempotent [of afterCooldown "t2024 + 86400000" "t2024 + 90000000"]
  from T d e h show ?thesis by simp
qed

subsection \<open>C8: the nudge\<close>

text \<open>
  C8 says that with a limit of 600000 ms the nudge is sent at the first tick at which the
  usage has reached 480000 ms. \<open>triggerNudge\<close> returns at once when \<open>allowSnooze\<close> is off:
  then the tick that reaches 480000 ms sends no nudge and leaves \<open>nudged\<close> unset.
\<close>

theorem nudge_sent_once_without_allowSnooze_counterexample:
  "480000 \<le> currentUsageMs (tk (runTicks [(t2024 + 481000, False, True)]
                                   (trackedSession (tenMinutes\<lparr>allowSnooze := False\<rparr>))))
   \<and> nudgesSent (runTicks [(t2024 + 481000, False, True)]
                    (trackedSession (tenMinutes\<lparr>allowSnooze := False\<rparr>))) = 0
   \<and> \<not> nudged (st_flags (runTicks [(t2024 + 481000, False, True)]
                    (trackedSession (tenMinutes\<lparr>allowSnooze := False\<rparr>))))"
  by code_simp

text \<open>
  C8, amended. With a daily limit of ten minutes, snooze allowed and no snooze running,
  from a state below 480000 ms that is neither nudged nor locked: after any run of ticks,
  the number of nudges sent has grown by one if the usage has reached 480000 ms and by none
  otherwise; \<open>nudged\<close> is set while the usage is between 480000 ms and the lock at 598000 ms;
  and no later tick of the run sends another nudge.
\<close>

theorem nudge_sent_once:
  "dailyLimitMin (st_settings w) = 10 \<and> allowSnooze (st_settings w) \<and> \<not> snoozed (st_flags w)
     \<and> \<not> nudged (st_flags w) \<and> \<not> locked (st_flags w) \<and> currentUsageMs (tk w) < 480000
   \<longrightarrow> nudgesSent (runTicks ts w)
         = nudgesSent w + (if 480000 \<le> currentUsageMs (tk (runTicks ts w)) then 1 else 0)
       \<and> (480000 \<le> currentUsageMs (tk (runTicks ts w))
            \<and> currentUsageMs (tk (runTicks ts w)) < 598000
           \<longrightarrow> nudged (st_flags (runTicks ts w)))
       \<and> (480000 \<le> currentUsageMs (tk (runTicks ts w))
           \<longrightarrow> nudgesSent (runTicks (ts @ ts') w) = nudgesSent (runTicks ts w))"
proof (intro impI)
  assume h: "dailyLimitMin (st_settings w) = 10 \<and> allowSnooze (st_settings w)
     \<and> \<not> snoozed (st_flags w)
     \<and> \<not> nudged (st_flags w) \<and> \<not> locked (st_flags w) \<and> currentUsageMs (tk w) < 480000"
  then have "nudgeInv (nudgesSent w) w" by (simp add: nudgeInv_def)
  then have i: "nudgeInv (nudgesSent w) (runTicks ts w)"
    and j: "nudgeInv (nudgesSent w) (runTicks (ts @ ts') w)"
    by (rule nudgeInv_runTicks)+
  have m: "currentUsageMs (tk (runTicks ts w)) \<le> currentUsageMs (tk (runTicks (ts @ ts') w))"
    unfolding runTicks_append by (rule runTicks_usage_mono)
  have 1: "nudgesSent (runTicks ts w)
         = nudgesSent w + (if 480000 \<le> currentUsageMs (tk (runTicks ts w)) then 1 else 0)"
    using i by (simp add: nudgeInv_def split: if_splits)
  have 2: "480000 \<le> currentUsageMs (tk (runTicks ts w))
            \<and> currentUsageMs (tk (runTicks ts w)) < 598000
           \<longrightarrow> nudged (st_flags (runTicks ts w))"
    using i by (simp add: nudgeInv_def split: if_splits)
  have 3: "480000 \<le> currentUsageMs (tk (runTicks ts w))
           \<longrightarrow> nudgesSent (runTicks (ts @ ts') w) = nudgesSent (runTicks ts w)"
  proof
    assume a: "480000 \<le> currentUsageMs (tk (runTicks ts w))"
    with m have b: "480000 \<le> currentUsageMs (tk (runTicks (ts @ ts') w))" by linarith
    from j b have "nudgesSent (runTicks (ts @ ts') w) = nudgesSent w + 1"
      by (simp add: nudgeInv_def split: if_splits)
    with 1 a show "nudgesSent (runTicks (ts @ ts') w) = nudgesSent (runTicks ts w)" by simp
  qed
  from 1 2 3 show "nudgesSent (runTicks ts w)
         = nudgesSent w + (if 480000 \<le> currentUsageMs (tk (runTicks ts w)) then 1 else 0)
       \<and> (480000 \<le> currentUsageMs (tk (runTicks ts w))
            \<and> currentUsageMs (tk (runTicks ts w)) < 598000
           \<longrightarrow> nudged (st_flags (runTicks ts w)))
       \<and> (480000 \<le> currentUsageMs (tk (runTicks ts w))
           \<longrightarrow> nudgesSent (runTicks (ts @ ts') w) = nudgesSent (runTicks ts w))"
    by blast
qed

text \<open>
  A ten-minute session: no nudge after 400 s, one after 480 s, and still one after two
  more ticks.
\<close>

theorem nudge_sent_once_witness:
  "(let w = trackedSession tenMinutes;
        ts = [(t2024 + 401000, False, True), (t2024 + 481000, False, True)];
        ts' = [(t2024 + 482000, False, True), (t2024 + 500000, False, True)]
    in dailyLimitMin (st_settings w) = 10 \<and> allowSnooze (st_settings w)
       \<and> \<not> snoozed (st_flags w) \<and> \<not> nudged (st_flags w) \<and> \<not> locked (st_flags w)
       \<and> currentUsageMs (tk w) = 0 \<and> nudgesSent w = 0
       \<and> currentUsageMs (tk (runTicks ts w)) = 480000
       \<and> nudgesSent (runTicks ts w) = 1
       \<and> nudged (st_flags (runTicks ts w))
       \<and> nudgesSent (runTicks (ts @ ts') w) = 1)"
proof -
  let ?w = "trackedSession tenMinutes"
  let ?ts = "[(t2024 + 401000, False, True), (t2024 + 481000, False, True)]"
  let ?ts' = "[(t2024 + 482000, False, True), (t2024 + 500000, False, True)]"
  have h: "dailyLimitMin (st_settings ?w) = 10 \<and> allowSnooze (st_settings ?w)
     \<and> \<not> snoozed (st_flags ?w)
     \<and> \<not> nudged (st_flags ?w) \<and> \<not> locked (st_flags ?w) \<and> currentUsageMs (tk ?w) < 480000"
    by code_simp
  have e: "currentUsageMs (tk ?w) = 0 \<and> nudgesSent ?w = 0
       \<and> currentUsageMs (tk (runTicks ?ts ?w)) = 480000"
    by code_simp
  from nudge_sent_once [of ?w ?ts ?ts'] h e
  show ?thesis unfolding Let_def by simp
qed

subsection \<open>C9: the guard that stays set\<close>

text \<open>
  C9 says that after any failed snooze request every later request of the session answers
  "Snooze in progress". A request that fails with "Snooze in progress" while the cooldown
  timer of a granted snooze is pending is followed by the firing of that timer, which
  clears the guard: the next request answers with its own reason.
\<close>

theorem snooze_guard_cleared_by_timer_counterexample:
  "fst (handleSnoozeRequest (t2024 + 80000)
          (run [UPDATE_TRACKING envOn (t2024 + 1000), TICK (t2024 + 59500) False True,
                SNOOZE_REQUEST (t2024 + 70000)] oneMinuteFresh))
     = Inl ''Snooze in progress''
   \<and> fst (handleSnoozeRequest (t2024 + 400000)
          (run [UPDATE_TRACKING envOn (t2024 + 1000), TICK (t2024 + 59500) False True,
                SNOOZE_REQUEST (t2024 + 70000), SNOOZE_REQUEST (t2024 + 80000),
                SNOOZE_TIMEOUT (t2024 + 370000)] oneMinuteFresh))
     = Inl ''Snooze already used today''"
  by code_simp

text \<open>
  C9, amended. Every handled snooze request leaves the guard set, and no event other than
  the firing of the cooldown timer clears it. In a session (any run from a fresh session),
  once a snooze request has failed with a reason other than "Snooze in progress" (too soon
  after the last one, not allowed, already used), every later snooze request answers
  "Snooze in progress", whatever events come in between.
\<close>

theorem snooze_guard_sticks:
  "snoozeInProgress (svc (snd (handleSnoozeRequest now w)))
   \<and> ((\<forall>t. e \<noteq> SNOOZE_TIMEOUT t) \<and> snoozeInProgress (svc w)
        \<longrightarrow> snoozeInProgress (svc (step e w)))
   \<and> (w = run es0 (freshSession s u f loaded si)
        \<and> fst (handleSnoozeRequest now w) = Inl msg \<and> msg \<noteq> ''Snooze in progress''
      \<longrightarrow> fst (handleSnoozeRequest now' (run es (snd (handleSnoozeRequest now w))))
            = Inl ''Snooze in progress'')"
proof (intro conjI impI)
  show "snoozeInProgress (svc (snd (handleSnoozeRequest now w)))"
    by (rule handleSnoozeRequest_sets_guard)
next
  assume "(\<forall>t. e \<noteq> SNOOZE_TIMEOUT t) \<and> snoozeInProgress (svc w)"
  then show "snoozeInProgress (svc (step e w))" by (simp add: step_keeps_guard)
next
  assume h: "w = run es0 (freshSession s u f loaded si)
        \<and> fst (handleSnoozeRequest now w) = Inl msg \<and> msg \<noteq> ''Snooze in progress''"
  let ?w' = "snd (handleSnoozeRequest now w)"
  from h have i: "timerInv w" by (simp add: timerInv_run timerInv_fresh)
  from h have g: "\<not> snoozeInProgress (svc w)" by (blast dest: handleSnoozeRequest_own_reason)
  with i have "snoozeTimers w = []" by (simp add: timerInv_def)
  moreover from h have r: "fst (handleSnoozeRequest now w) = Inl msg" by blast
  then have "fst (handleSnoozeRequest now w) \<noteq> Inr ()" by simp
  ultimately have t: "snoozeTimers ?w' = []" by (simp add: handleSnoozeRequest_failure(1))
  have "snoozeInProgress (svc ?w')" by (rule handleSnoozeRequest_sets_guard)
  with t have "snoozeInProgress (svc (run es ?w'))" by (simp add: stuck_run)
  then show "fst (handleSnoozeRequest now' (run es ?w')) = Inl ''Snooze in progress''"
    by (simp add: handleSnoozeRequest_guarded)
qed

text \<open>
  The one-minute session after its cooldown: the request at 400 s is "already used today",
  and after a manual reset and the rollover the next request is "in progress".
\<close>

theorem snooze_guard_sticks_witness:
  "fst (handleSnoozeRequest (t2024 + 400000)
          (run [UPDATE_TRACKING envOn (t2024 + 1000), TICK (t2024 + 59500) False True,
                SNOOZE_REQUEST (t2024 + 70000), SNOOZE_TIMEOUT (t2024 + 370000)] oneMinuteFresh))
     = Inl ''Snooze already used today''
   \<and> fst (handleSnoozeRequest (t2024 + 86400000)
          (run [MANUAL_RESET envOn (t2024 + 500000), DAILY_RESET (t2024 + 86400000)]
            (snd (handleSnoozeRequest (t2024 + 400000)
              (run [UPDATE_TRACKING envOn (t2024 + 1000), TICK (t2024 + 59500) False True,
                    SNOOZE_REQUEST (t2024 + 70000), SNOOZE_TIMEOUT (t2024 + 370000)]
                 oneMinuteFresh)))))
     = Inl ''Snooze in progress''
   \<and> snoozeInProgress (svc (step (MANUAL_RESET envOn (t2024 + 500000)) snoozedSession))"
proof -
  let ?es0 = "[UPDATE_TRACKING envOn (t2024 + 1000), TICK (t2024 + 59500) False True,
                SNOOZE_REQUEST (t2024 + 70000), SNOOZE_TIMEOUT (t2024 + 370000)]"
  let ?w = "run ?es0 oneMinuteFresh"
  have h: "fst (handleSnoozeRequest (t2024 + 400000) ?w) = Inl ''Snooze already used today''"
    by code_simp
  have m: "''Snooze already used today'' \<noteq> ''Snooze in progress''" by simp
  have r: "?w = run ?es0 (freshSession oneMinute (DEFAULT_USAGE t2024) DEFAULT_FLAGS t2024 60000)"
    by (simp only: oneMinuteFresh_def)
  have g: "snoozeInProgress (svc snoozedSession)" by code_simp
  have n: "\<forall>t. MANUAL_RESET envOn (t2024 + 500000) \<noteq> SNOOZE_TIMEOUT t" by simp
  note T = snooze_guard_sticks [of "t2024 + 400000" ?w "MANUAL_RESET envOn (t2024 + 500000)"
      ?es0 oneMinute "DEFAULT_USAGE t2024" DEFAULT_FLAGS t2024 60000
      "''Snooze already used today''" "t2024 + 86400000"
      "[MANUAL_RESET envOn (t2024 + 500000), DAILY_RESET (t2024 + 86400000)]"]
  note U = snooze_guard_sticks [of "t2024 + 400000" snoozedSession
      "MANUAL_RESET envOn (t2024 + 500000)"]
  from T h m r have 1: "fst (handleSnoozeRequest (t2024 + 86400000)
          (run [MANUAL_RESET envOn (t2024 + 500000), DAILY_RESET (t2024 + 86400000)]
            (snd (handleSnoozeRequest (t2024 + 400000) ?w)))) = Inl ''Snooze in progress''"
    by blast
  from U g n have 2: "snoozeInProgress (svc (step (MANUAL_RESET envOn (t2024 + 500000)) snoozedSession))"
    by blast
  from h 1 2 show ?thesis by blast
qed

subsection \<open>C10: lowering the daily limit\<close>

text \<open>
  C10 says that an update that lowers the daily limit to what is already used locks at
  once. When the message carries \<open>resetUsage\<close> (the options page sets it whenever the daily
  limit or the cooldown has changed), the block for it overwrites the prepared flags with
  \<open>locked: false\<close> and clears the in-memory lock.
\<close>

theorem update_settings_resetUsage_counterexample:
  "dailyLimitMin (st_settings twoMinutesUsed) = 10
   \<and> currentUsageMs (tk twoMinutesUsed) = 120000
   \<and> \<not> locked (st_flags twoMinutesUsed)
   \<and> fst (handleUpdateSettings lowerLimitTo1 True (t2024 + 200000) twoMinutesUsed) = False
   \<and> dailyLimitMin (st_settings (snd (handleUpdateSettings lowerLimitTo1 True (t2024 + 200000)
                                         twoMinutesUsed))) = 1
   \<and> \<not> locked (st_flags (snd (handleUpdateSettings lowerLimitTo1 True (t2024 + 200000)
                                         twoMinutesUsed)))
   \<and> frozenTimeUsed (st_flags (snd (handleUpdateSettings lowerLimitTo1 True (t2024 + 200000)
                                         twoMinutesUsed))) = None
   \<and> \<not> isLocked (tk (snd (handleUpdateSettings lowerLimitTo1 True (t2024 + 200000)
                                         twoMinutesUsed)))"
  by code_simp

lemma limitChangeBlock_locks:
  assumes "u_dailyLimitMin m = Some n" "n \<noteq> dailyLimitMin (st_settings w)"
    "n * 60000 - 2000 \<le> currentUsageMs (tk w)"
  shows "limitChangeBlock m now w
           = (stop now (w\<lparr>tk := (tk w)\<lparr>isLocked := True\<rparr>\<rparr>),
              Some ((st_flags w)\<lparr>locked := True, frozenTimeUsed := Some (n * 60000)\<rparr>))"
  using assms by (simp add: limitChangeBlock_def tickBuffer_def Let_def)

text \<open>
  C10, amended. For an update that is not debounced and does not carry \<open>resetUsage\<close>, that
  changes the daily limit, with the in-memory usage at least the new limit minus 2000 ms:
  if the cooldown is not changed, the worker is locked at once (\<open>locked\<close> stored, the frozen
  value the new limit in milliseconds, the clock stopped); if the cooldown is changed too,
  the usage is reset to 0, the in-memory lock is cancelled and the stored flags stay as
  they were.
\<close>

theorem update_settings_limit_lock:
  "1000 \<le> now - lastSettingsUpdate (svc w) \<and> \<not> resetUsage
     \<and> u_dailyLimitMin m = Some n \<and> n \<noteq> dailyLimitMin (st_settings w)
     \<and> n * 60000 - 2000 \<le> currentUsageMs (tk w)
   \<longrightarrow> ((u_cooldownMin m = None \<or> u_cooldownMin m = Some (cooldownMin (st_settings w)))
         \<longrightarrow> locked (st_flags (snd (handleUpdateSettings m resetUsage now w)))
           \<and> frozenTimeUsed (st_flags (snd (handleUpdateSettings m resetUsage now w)))
               = Some (n * 60000)
           \<and> isLocked (tk (snd (handleUpdateSettings m resetUsage now w)))
           \<and> \<not> tickInterval (tk (snd (handleUpdateSettings m resetUsage now w)))
           \<and> \<not> isActive (tk (snd (handleUpdateSettings m resetUsage now w))))
     \<and> ((\<exists>c. u_cooldownMin m = Some c \<and> c \<noteq> cooldownMin (st_settings w))
         \<longrightarrow> currentUsageMs (tk (snd (handleUpdateSettings m resetUsage now w))) = 0
           \<and> millisActive (st_usage (snd (handleUpdateSettings m resetUsage now w))) = 0
           \<and> st_flags (snd (handleUpdateSettings m resetUsage now w)) = st_flags w
           \<and> \<not> isLocked (tk (snd (handleUpdateSettings m resetUsage now w))))"
proof (intro impI conjI)
  assume h: "1000 \<le> now - lastSettingsUpdate (svc w) \<and> \<not> resetUsage
     \<and> u_dailyLimitMin m = Some n \<and> n \<noteq> dailyLimitMin (st_settings w)
     \<and> n * 60000 - 2000 \<le> currentUsageMs (tk w)"
  let ?w0 = "w\<lparr>svc := (svc w)\<lparr>lastSettingsUpdate := now\<rparr>\<rparr>"
  have l: "limitChangeBlock m now ?w0
           = (stop now (?w0\<lparr>tk := (tk ?w0)\<lparr>isLocked := True\<rparr>\<rparr>),
              Some ((st_flags ?w0)\<lparr>locked := True, frozenTimeUsed := Some (n * 60000)\<rparr>))"
    using h by (intro limitChangeBlock_locks) simp_all
  {
    assume c: "u_cooldownMin m = None \<or> u_cooldownMin m = Some (cooldownMin (st_settings w))"
    have r: "snd (handleUpdateSettings m resetUsage now w)
          = (let w1 = stop now (?w0\<lparr>tk := (tk ?w0)\<lparr>isLocked := True\<rparr>\<rparr>);
                 w3 = w1\<lparr>st_settings := mergeSettings (st_settings w) m,
                         st_usage := st_usage w1,
                         st_flags := (st_flags w)\<lparr>locked := True,
                                                  frozenTimeUsed := Some (n * 60000)\<rparr>\<rparr>
             in w3\<lparr>outbox := outbox w3 @ [SHOW_SOFT_LOCK]\<rparr>)"
      using h c by (auto simp: handleUpdateSettings_def l cooldownChangeBlock_def Let_def)
    show "locked (st_flags (snd (handleUpdateSettings m resetUsage now w)))"
      unfolding r by (simp add: Let_def)
    show "frozenTimeUsed (st_flags (snd (handleUpdateSettings m resetUsage now w)))
               = Some (n * 60000)"
      unfolding r by (simp add: Let_def)
    show "isLocked (tk (snd (handleUpdateSettings m resetUsage now w)))"
      unfolding r by (simp add: Let_def)
    show "\<not> tickInterval (tk (snd (handleUpdateSettings m resetUsage now w)))"
      unfolding r by (simp add: Let_def)
    show "\<not> isActive (tk (snd (handleUpdateSettings m resetUsage now w)))"
      unfolding r by (simp add: Let_def)
  }
  {
    assume "\<exists>c. u_cooldownMin m = Some c \<and> c \<noteq> cooldownMin (st_settings w)"
    then obtain c where c: "u_cooldownMin m = Some c" "c \<noteq> cooldownMin (st_settings w)" by blast
    have r: "snd (handleUpdateSettings m resetUsage now w)
          = (let w1 = stop now (?w0\<lparr>tk := (tk ?w0)\<lparr>isLocked := True\<rparr>\<rparr>);
                 w2 = w1\<lparr>tk := (tk w1)\<lparr>currentUsageMs := 0, isInitialized := True,
                                         isPaused := False, isLocked := False\<rparr>\<rparr>
             in w2\<lparr>st_settings := mergeSettings (st_settings w) m,
                    st_usage := \<lparr>millisActive = 0, lastTickAt = now, dateKey = getDateKey now\<rparr>,
                    st_flags := st_flags w\<rparr>)"
      using h c by (simp add: handleUpdateSettings_def l cooldownChangeBlock_def Let_def)
    show "currentUsageMs (tk (snd (handleUpdateSettings m resetUsage now w))) = 0"
      unfolding r by (simp add: Let_def)
    show "millisActive (st_usage (snd (handleUpdateSettings m resetUsage now w))) = 0"
      unfolding r by (simp add: Let_def)
    show "st_flags (snd (handleUpdateSettings m resetUsage now w)) = st_flags w"
      unfolding r by (simp add: Let_def)
    show "\<not> isLocked (tk (snd (handleUpdateSettings m resetUsage now w)))"
      unfolding r by (simp add: Let_def)
  }
qed

text \<open>
  The ten-minute session with two minutes used: lowering the limit to one minute locks it
  with the frozen value 60000; lowering it and changing the cooldown resets the usage and
  leaves it unlocked.
\<close>

theorem update_settings_limit_lock_witness:
  "1000 \<le> t2024 + 200000 - lastSettingsUpdate (svc twoMinutesUsed)
   \<and> dailyLimitMin (st_settings twoMinutesUsed) = 10 \<and> cooldownMin (st_settings twoMinutesUsed) = 5
   \<and> currentUsageMs (tk twoMinutesUsed) = 120000 \<and> \<not> locked (st_flags twoMinutesUsed)
   \<and> locked (st_flags (snd (handleUpdateSettings lowerLimitTo1 False (t2024 + 200000) twoMinutesUsed)))
   \<and> frozenTimeUsed (st_flags (snd (handleUpdateSettings lowerLimitTo1 False (t2024 + 200000)
                                       twoMinutesUsed))) = Some 60000
   \<and> \<not> tickInterval (tk (snd (handleUpdateSettings lowerLimitTo1 False (t2024 + 200000)
                                       twoMinutesUsed)))
   \<and> currentUsageMs (tk (snd (handleUpdateSettings lowerLimitAndCooldown False (t2024 + 200000)
                                       twoMinutesUsed))) = 0
   \<and> \<not> locked (st_flags (snd (handleUpdateSettings lowerLimitAndCooldown False (t2024 + 200000)
                                       twoMinutesUsed)))
   \<and> \<not> isLocked (tk (snd (handleUpdateSettings lowerLimitAndCooldown False (t2024 + 200000)
                                       twoMinutesUsed)))"
proof -
  have h: "1000 \<le> t2024 + 200000 - lastSettingsUpdate (svc twoMinutesUsed)
     \<and> dailyLimitMin (st_settings twoMinutesUsed) = 10
     \<and> cooldownMin (st_settings twoMinutesUsed) = 5
     \<and> currentUsageMs (tk twoMinutesUsed) = 120000 \<and> \<not> locked (st_flags twoMinutesUsed)
     \<and> u_dailyLimitMin lowerLimitTo1 = Some 1 \<and> u_cooldownMin lowerLimitTo1 = None
     \<and> u_dailyLimitMin lowerLimitAndCooldown = Some 1
     \<and> u_cooldownMin lowerLimitAndCooldown = Some 10"
    by code_simp
  then have p: "1000 \<le> t2024 + 200000 - lastSettingsUpdate (svc twoMinutesUsed) \<and> \<not> False
     \<and> u_dailyLimitMin lowerLimitTo1 = Some 1 \<and> 1 \<noteq> dailyLimitMin (st_settings twoMinutesUsed)
     \<and> 1 * 60000 - 2000 \<le> currentUsageMs (tk twoMinutesUsed)"
    and q: "1000 \<le> t2024 + 200000 - lastSettingsUpdate (svc twoMinutesUsed) \<and> \<not> False
     \<and> u_dailyLimitMin lowerLimitAndCooldown = Some 1
     \<and> 1 \<noteq> dailyLimitMin (st_settings twoMinutesUsed)
     \<and> 1 * 60000 - 2000 \<le> currentUsageMs (tk twoMinutesUsed)"
    and c: "\<exists>c. u_cooldownMin lowerLimitAndCooldown = Some c
              \<and> c \<noteq> cooldownMin (st_settings twoMinutesUsed)"
    by simp_all
  note A = update_settings_limit_lock [of "t2024 + 200000" twoMinutesUsed False lowerLimitTo1 1,
      rule_format, OF p]
  note B = update_settings_limit_lock [of "t2024 + 200000" twoMinutesUsed False
      lowerLimitAndCooldown 1, rule_format, OF q]
  from A h have 1: "locked (st_flags (snd (handleUpdateSettings lowerLimitTo1 False
                                             (t2024 + 200000) twoMinutesUsed)))
     \<and> frozenTimeUsed (st_flags (snd (handleUpdateSettings lowerLimitTo1 False (t2024 + 200000)
                                       twoMinutesUsed))) = Some 60000
     \<and> \<not> tickInterval (tk (snd (handleUpdateSettings lowerLimitTo1 False (t2024 + 200000)
                                       twoMinutesUsed)))"
    by simp
  from B c h have 2: "currentUsageMs (tk (snd (handleUpdateSettings lowerLimitAndCooldown False
                                       (t2024 + 200000) twoMinutesUsed))) = 0
     \<and> \<not> locked (st_flags (snd (handleUpdateSettings lowerLimitAndCooldown False (t2024 + 200000)
                                       twoMinutesUsed)))
     \<and> \<not> isLocked (tk (snd (handleUpdateSettings lowerLimitAndCooldown False (t2024 + 200000)
                                       twoMinutesUsed)))"
    by simp
  from h 1 2 show ?thesis by simp
qed

section \<open>Further properties\<close>

text \<open>
  A bypass request never unlocks, whatever the passcode: the handler always ends in the
  \<open>ReferenceError\<close> of the unqualified call, which \<open>handleMessage\<close> answers with an error.
\<close>

theorem bypass_request_always_fails:
  "fst (handleBypassRequest passcode w) = Inl ''clearLockedState is not defined''
   \<and> locked (st_flags (snd (handleBypassRequest passcode w))) = locked (st_flags w)
   \<and> isLocked (tk (snd (handleBypassRequest passcode w))) = isLocked (tk w)"
  by (simp add: handleBypassRequest_def Let_def)

text \<open>
  The worker's \<open>validatePasscode\<close> rejects every candidate when no passcode is configured
  (the copy in \<open>lib/rules.js\<close> accepts every candidate in that case).
\<close>

theorem validatePasscode_without_passcode:
  "passcodeHash (st_settings w) = None \<longrightarrow> \<not> validatePasscode passcode w"
  by (simp add: validatePasscode_def)

theorem validatePasscode_without_passcode_witness:
  "passcodeHash (st_settings lockedSession) = None \<and> \<not> validatePasscode ''1234'' lockedSession"
proof -
  have h: "passcodeHash (st_settings lockedSession) = None" by code_simp
  with validatePasscode_without_passcode [of lockedSession "''1234''"] show ?thesis by blast
qed

text \<open>In every state of a session at most one cooldown timer is pending, and then the guard is set.\<close>

theorem timerInv_reachable:
  "timerInv (run es (freshSession s u f loaded si))"
  by (simp add: timerInv_run timerInv_fresh)

text \<open>
  \<open>manualReset\<close> stores flags without \<open>snoozeUsedToday\<close>, so after the cooldown of a granted
  snooze and a manual reset, a second snooze is granted on the same date.
\<close>

theorem second_snooze_after_manual_reset:
  "fst (handleSnoozeRequest (t2024 + 70000) lockedSession) = Inr ()
   \<and> dateKey (st_usage (manualReset envOn (t2024 + 380000) afterCooldown)) = ''2024-01-01''
   \<and> fst (handleSnoozeRequest (t2024 + 390000) (manualReset envOn (t2024 + 380000) afterCooldown))
       = Inr ()"
  by code_simp

end
